theory Spec2Isabelle
  imports Complex_Main
begin

section \<open>JavaScript values occurring in a manifest\<close>

text \<open>
  The manifest is the result of \<^verbatim>\<open>JSON.parse\<close>, cast to the declared type
  \<^verbatim>\<open>executableManifest\<close>. A scalar of a rule is a number or a string. A finite number is
  a rational (every finite double is one); \<open>PosInf\<close> and \<open>NegInf\<close> are the two infinities,
  which \<^verbatim>\<open>JSON.parse\<close> yields for a literal beyond the range of doubles and a
  multiplication yields on overflow; \<open>NaN\<close> is the number that \<^verbatim>\<open>default_value * 2\<close> yields
  for a string that does not denote a number. A property that is absent (\<^verbatim>\<open>undefined\<close>)
  is \<open>None\<close>.
\<close>

datatype jsval = Num rat | PosInf | NegInf | NaN | Str string

text \<open>\<open>truthy v\<close> is the negation of JavaScript's \<^verbatim>\<open>!v\<close>.\<close>

fun truthy :: "jsval \<Rightarrow> bool" where
  "truthy (Num n) = (n \<noteq> 0)"
| "truthy PosInf = True"
| "truthy NegInf = True"
| "truthy NaN = False"
| "truthy (Str s) = (s \<noteq> [])"

definition truthy_opt :: "jsval option \<Rightarrow> bool" where
  "truthy_opt x = (case x of None \<Rightarrow> False | Some v \<Rightarrow> truthy v)"

definition truthy_str :: "string option \<Rightarrow> bool" where
  "truthy_str x = (case x of None \<Rightarrow> False | Some s \<Rightarrow> s \<noteq> [])"

text \<open>\<^verbatim>\<open>Number.MAX_VALUE\<close>, the largest finite double.\<close>

definition MAX_VALUE :: rat where
  "MAX_VALUE = (2 ^ 53 - 1) * 2 ^ 971"

text \<open>
  \<^verbatim>\<open>x * 2\<close> for a number \<open>x\<close>. Doubling a finite double is exact unless the result
  exceeds \<^verbatim>\<open>Number.MAX_VALUE\<close> in magnitude; then it is the infinity of the same sign.
\<close>

fun double_number :: "jsval \<Rightarrow> jsval" where
  "double_number (Num n) =
     (if \<bar>n * 2\<bar> \<le> MAX_VALUE then Num (n * 2) else if 0 < n then PosInf else NegInf)"
| "double_number PosInf = PosInf"
| "double_number NegInf = NegInf"
| "double_number NaN = NaN"
| "double_number (Str s) = NaN"

text \<open>
  \<^verbatim>\<open>v * 2\<close> for a scalar \<open>v\<close>. JavaScript converts a string operand with its built-in
  \<open>ToNumber\<close>, which is taken as the parameter \<open>tn\<close>; it returns a number (\<open>NaN\<close> when
  the string denotes none).
\<close>

fun js_times2 :: "(string \<Rightarrow> jsval) \<Rightarrow> jsval \<Rightarrow> jsval" where
  "js_times2 tn (Str s) = double_number (tn s)"
| "js_times2 tn v = double_number v"

section \<open>Rules, catalog and manifest\<close>

text \<open>
  One record for \<^verbatim>\<open>integerRule\<close>, \<^verbatim>\<open>stringOptionRule\<close> and the string-input rule: the
  code reads and writes the fields of one object through casts. \<open>rmax\<close> and \<open>rmin\<close> are
  the properties \<^verbatim>\<open>max\<close> and \<^verbatim>\<open>min\<close>. The property \<^verbatim>\<open>options\<close> is declared an array of
  strings; a document may give a scalar instead, on which the array methods that the code
  calls are missing.
\<close>

datatype options_value = Items "jsval list" | Scalar jsval

record rule =
  type :: "string option"
  default_value :: "jsval option"
  unit :: "string option"
  rmax :: "jsval option"
  rmin :: "jsval option"
  step :: "jsval option"
  options :: "options_value option"

text \<open>
  The value of an entry of a rule mapping in the parsed document: an object, or \<^verbatim>\<open>null\<close>,
  whose properties cannot be read. (A number, string, boolean or array as the value of an
  entry has none of the properties of a rule and behaves as the object without
  properties.)
\<close>

datatype rule_value = Null_rule | Object rule

text \<open>
  The name lists exported by \<^verbatim>\<open>../utils/types\<close>. That module is not part of the sources
  at hand, so the lists are a parameter of the validator.
\<close>

record catalog =
  slurm_configs :: "string list"
  slurm_integer_configs :: "string list"
  slurm_integer_none_unit_config :: "string list"
  slurm_integer_storage_unit_config :: "string list"
  slurm_integer_time_unit_config :: "string list"
  slurm_string_option_configs :: "string list"

text \<open>
  The parsed document: every key may be absent (\<open>None\<close>). For \<^verbatim>\<open>supported_hpc\<close> the
  value \<^verbatim>\<open>null\<close> is kept apart (\<open>Some None\<close>), because the code tests that property for
  truthiness. Stage descriptors are opaque. A rule mapping is an object (or absent),
  given as the list of its entries in enumeration order.
\<close>

record rawManifest =
  raw_name :: "string option"
  raw_container :: "string option"
  raw_connector :: "string option"
  raw_pre_processing_stage :: "string option"
  raw_execution_stage :: "string option"
  raw_post_processing_stage :: "string option"
  raw_description :: "string option"
  raw_estimated_runtime :: "string option"
  raw_supported_hpc :: "string list option option"
  raw_default_hpc :: "string option"
  raw_repository :: "string option"
  raw_require_upload_data :: "bool option"
  raw_slurm_input_rules :: "(string \<times> rule_value) list option"
  raw_param_rules :: "(string \<times> rule_value) list option"

record executableManifest =
  name :: "string option"
  container :: "string option"
  connector :: "string option"
  pre_processing_stage :: "string option"
  execution_stage :: "string option"
  post_processing_stage :: "string option"
  description :: string
  estimated_runtime :: string
  supported_hpc :: "string list option"
  default_hpc :: "string option"
  repository :: string
  require_upload_data :: bool
  slurm_input_rules :: "(string \<times> rule) list"
  param_rules :: "(string \<times> rule) list"

section \<open>GitUtil.processExecutableManifest\<close>

text \<open>
  \<^verbatim>\<open>Object.assign({ ...defaults... }, JSON.parse(rawExecutableManifest))\<close>: every property
  but the two rule mappings, which the loops below turn into the mappings of the result
  (until then \<open>slurm_input_rules\<close> and \<open>param_rules\<close> of this record are empty).
\<close>

definition assign_defaults :: "string \<Rightarrow> rawManifest \<Rightarrow> executableManifest" where
  "assign_defaults address doc =
     \<lparr> name = raw_name doc,
       container = raw_container doc,
       connector = raw_connector doc,
       pre_processing_stage = raw_pre_processing_stage doc,
       execution_stage = raw_execution_stage doc,
       post_processing_stage = raw_post_processing_stage doc,
       description = (case raw_description doc of None \<Rightarrow> ''none'' | Some d \<Rightarrow> d),
       estimated_runtime =
         (case raw_estimated_runtime doc of None \<Rightarrow> ''unknown'' | Some e \<Rightarrow> e),
       supported_hpc =
         (case raw_supported_hpc doc of None \<Rightarrow> Some [''keeling_community''] | Some h \<Rightarrow> h),
       default_hpc = raw_default_hpc doc,
       repository = (case raw_repository doc of None \<Rightarrow> address | Some r \<Rightarrow> r),
       require_upload_data =
         (case raw_require_upload_data doc of None \<Rightarrow> False | Some b \<Rightarrow> b),
       slurm_input_rules = [],
       param_rules = [] \<rparr>"

text \<open>The rule mappings after \<^verbatim>\<open>Object.assign\<close>: those of the document, or \<^verbatim>\<open>{}\<close>.\<close>

definition assigned_slurm_input_rules :: "rawManifest \<Rightarrow> (string \<times> rule_value) list" where
  "assigned_slurm_input_rules doc =
     (case raw_slurm_input_rules doc of None \<Rightarrow> [] | Some rs \<Rightarrow> rs)"

definition assigned_param_rules :: "rawManifest \<Rightarrow> (string \<times> rule_value) list" where
  "assigned_param_rules doc = (case raw_param_rules doc of None \<Rightarrow> [] | Some rs \<Rightarrow> rs)"

text \<open>
  \<^verbatim>\<open>if (!m.default_hpc && m.supported_hpc) m.default_hpc = m.supported_hpc[0]\<close>;
  an array is truthy even when empty, and index 0 of an empty array is \<^verbatim>\<open>undefined\<close>.
\<close>

definition fill_default_hpc :: "executableManifest \<Rightarrow> executableManifest" where
  "fill_default_hpc m =
     (if \<not> truthy_str (default_hpc m) \<and> supported_hpc m \<noteq> None
      then m\<lparr> default_hpc := (case supported_hpc m of
                                 Some (h # _) \<Rightarrow> Some h
                               | _ \<Rightarrow> None) \<rparr>
      else m)"

text \<open>The three assignments guarded by \<^verbatim>\<open>!rule.max\<close>, \<^verbatim>\<open>!rule.min\<close>, \<^verbatim>\<open>!rule.step\<close>;
  \<open>v\<close> is the rule's default value.\<close>

definition integer_defaults :: "(string \<Rightarrow> jsval) \<Rightarrow> jsval \<Rightarrow> rule \<Rightarrow> rule" where
  "integer_defaults tn v r =
     (let r1 = (if \<not> truthy_opt (rmax r) then r\<lparr> rmax := Some (js_times2 tn v) \<rparr> else r);
          r2 = (if \<not> truthy_opt (rmin r1) then r1\<lparr> rmin := Some (Num 0) \<rparr> else r1)
      in (if \<not> truthy_opt (step r2) then r2\<lparr> step := Some (Num 1) \<rparr> else r2))"

text \<open>The error values of the model: what an external call throws, the
  \<^verbatim>\<open>SyntaxError\<close> of \<^verbatim>\<open>JSON.parse\<close>, and the \<^verbatim>\<open>TypeError\<close> of reading a property of
  \<^verbatim>\<open>null\<close> or \<^verbatim>\<open>undefined\<close> and of calling a method that the value does not have.\<close>

datatype error = External string | SyntaxError | TypeError

text \<open>\<^verbatim>\<open>s.includes(d)\<close> for two strings: \<open>d\<close> occurs in \<open>s\<close>.\<close>

fun includes_string :: "string \<Rightarrow> string \<Rightarrow> bool" where
  "includes_string [] d = (d = [])"
| "includes_string (c # cs) d = (take (length d) (c # cs) = d \<or> includes_string cs d)"

text \<open>
  \<^verbatim>\<open>if (!rule.options) rule.options = [v]\<close>: the value of \<^verbatim>\<open>rule.options\<close> after the
  statement. An array is truthy, also when empty.
\<close>

definition effective_options :: "jsval \<Rightarrow> options_value option \<Rightarrow> options_value" where
  "effective_options v x =
     (case x of
        None \<Rightarrow> Items [v]
      | Some (Items os) \<Rightarrow> Items os
      | Some (Scalar w) \<Rightarrow> if truthy w then Scalar w else Items [v])"

text \<open>
  The two statements on \<^verbatim>\<open>rule.options\<close>; the second is
  \<^verbatim>\<open>if (!rule.options.includes(v)) rule.options.push(v)\<close>. The \<^verbatim>\<open>includes\<close> of an array
  compares with SameValueZero, which is equality on \<open>jsval\<close>. A number has no method
  \<^verbatim>\<open>includes\<close>: the call throws. A string has one, which converts its argument to a string
  (with the built-in \<open>ToString\<close>, the parameter \<open>ts\<close>, for a number) and looks for it as
  a substring; a string has no method \<^verbatim>\<open>push\<close>, so the statement throws unless the
  default occurs in the string.
\<close>

definition string_option_defaults :: "(jsval \<Rightarrow> string) \<Rightarrow> jsval \<Rightarrow> rule \<Rightarrow> error + rule" where
  "string_option_defaults ts v r =
     (case effective_options v (options r) of
        Items os \<Rightarrow> Inr (r\<lparr> options := Some (Items (if v \<in> set os then os else os @ [v])) \<rparr>)
      | Scalar (Str s) \<Rightarrow>
          if includes_string s (case v of Str d \<Rightarrow> d | _ \<Rightarrow> ts v)
          then Inr (r\<lparr> options := Some (Scalar (Str s)) \<rparr>)
          else Inl TypeError
      | Scalar _ \<Rightarrow> Inl TypeError)"

text \<open>
  The body of the first loop for one entry: it throws, or deletes the entry (\<open>None\<close>), or
  leaves the rule as given. The name is tested before the rule is read, so an entry with
  an unknown name is deleted whatever its value; \<^verbatim>\<open>rule.default_value\<close> throws for
  \<^verbatim>\<open>null\<close>. (The test \<^verbatim>\<open>rule === undefined\<close> cannot succeed for an entry of a parsed
  JSON object.)
\<close>

definition slurm_rule_step ::
  "catalog \<Rightarrow> (string \<Rightarrow> jsval) \<Rightarrow> (jsval \<Rightarrow> string) \<Rightarrow> string \<Rightarrow> rule_value \<Rightarrow>
   error + rule option" where
  "slurm_rule_step cat tn ts rule_name rv =
     (if rule_name \<notin> set (slurm_configs cat) then Inr None
      else case rv of
        Null_rule \<Rightarrow> Inl TypeError
      | Object r \<Rightarrow>
         (case default_value r of
            None \<Rightarrow> Inr None
          | Some v \<Rightarrow>
              if \<not> truthy v then Inr None
              else if rule_name \<in> set (slurm_integer_time_unit_config cat) \<and>
                      (case unit r of None \<Rightarrow> False
                       | Some u \<Rightarrow> u \<notin> set [''Minutes'', ''Hours'', ''Days''])
              then Inr None
              else if rule_name \<in> set (slurm_integer_storage_unit_config cat) \<and>
                      (case unit r of None \<Rightarrow> False | Some u \<Rightarrow> u \<notin> set [''GB'', ''MB''])
              then Inr None
              else if rule_name \<in> set (slurm_integer_none_unit_config cat)
              then Inr (Some (r\<lparr> unit := Some ''None'' \<rparr>))
              else
                (let r1 = (if rule_name \<in> set (slurm_integer_configs cat)
                           then integer_defaults tn v r else r)
                 in if rule_name \<in> set (slurm_string_option_configs cat)
                    then map_sum id Some (string_option_defaults ts v r1)
                    else Inr (Some r1))))"

text \<open>The body of the second loop for one entry; its first statement reads
  \<^verbatim>\<open>param_rules[rule_name].default_value\<close>.\<close>

definition param_rule_step ::
  "(string \<Rightarrow> jsval) \<Rightarrow> (jsval \<Rightarrow> string) \<Rightarrow> rule_value \<Rightarrow> error + rule option" where
  "param_rule_step tn ts rv =
     (case rv of
        Null_rule \<Rightarrow> Inl TypeError
      | Object r \<Rightarrow>
         (case default_value r of
            None \<Rightarrow> Inr None
          | Some v \<Rightarrow>
              if \<not> truthy v then Inr None
              else if (case type r of None \<Rightarrow> [] | Some t \<Rightarrow> t)
                        \<notin> set [''integer'', ''string_option'', ''string_input'']
              then Inr None
              else
                (let r1 = (if type r = Some ''integer'' then integer_defaults tn v r else r)
                 in if type r1 = Some ''string_option''
                    then map_sum id Some (string_option_defaults ts v r1)
                    else Inr (Some r1))))"

text \<open>
  \<^verbatim>\<open>for (const rule_name in mapping) { ... }\<close>. The keys of a parsed object are distinct
  and an iteration reads, deletes or updates the entry of its own key only, so the loop
  is one pass over the entries that drops or rewrites each of them in place; an iteration
  that throws ends the loop and the function.
\<close>

fun for_in ::
  "(string \<Rightarrow> rule_value \<Rightarrow> error + rule option) \<Rightarrow> (string \<times> rule_value) list \<Rightarrow>
   error + (string \<times> rule) list" where
  "for_in body [] = Inr []"
| "for_in body ((k, rv) # rest) =
     (case body k rv of
        Inl e \<Rightarrow> Inl e
      | Inr None \<Rightarrow> for_in body rest
      | Inr (Some r') \<Rightarrow>
          (case for_in body rest of
             Inl e \<Rightarrow> Inl e
           | Inr rs \<Rightarrow> Inr ((k, r') # rs)))"

text \<open>The function after \<^verbatim>\<open>JSON.parse\<close> has returned the document.\<close>

definition normalizeManifest ::
  "catalog \<Rightarrow> (string \<Rightarrow> jsval) \<Rightarrow> (jsval \<Rightarrow> string) \<Rightarrow> rawManifest \<Rightarrow> string \<Rightarrow>
   error + executableManifest" where
  "normalizeManifest cat tn ts doc address =
     (let m = fill_default_hpc (assign_defaults address doc) in
      case for_in (slurm_rule_step cat tn ts) (assigned_slurm_input_rules doc) of
        Inl e \<Rightarrow> Inl e
      | Inr ss \<Rightarrow>
          (case for_in (\<lambda>k. param_rule_step tn ts) (assigned_param_rules doc) of
             Inl e \<Rightarrow> Inl e
           | Inr ps \<Rightarrow> Inr (m\<lparr> slurm_input_rules := ss, param_rules := ps \<rparr>)))"

text \<open>\<^verbatim>\<open>JSON.parse\<close> is the parameter \<open>parse\<close>: \<open>None\<close> when it throws.\<close>

definition processExecutableManifest ::
  "catalog \<Rightarrow> (string \<Rightarrow> jsval) \<Rightarrow> (jsval \<Rightarrow> string) \<Rightarrow> (string \<Rightarrow> rawManifest option) \<Rightarrow>
   string \<Rightarrow> string \<Rightarrow> error + executableManifest" where
  "processExecutableManifest cat tn ts parse rawExecutableManifest address =
     (case parse rawExecutableManifest of
        None \<Rightarrow> Inl SyntaxError
      | Some doc \<Rightarrow> normalizeManifest cat tn ts doc address)"

section \<open>Properties of a validated manifest\<close>


text \<open>What the validator establishes for a rule it keeps: a truthy default value and,
  after the integer defaulting, bounds that are defined and a truthy step.\<close>

definition has_default :: "rule \<Rightarrow> bool" where
  "has_default r = truthy_opt (default_value r)"

definition integer_fields_filled :: "rule \<Rightarrow> bool" where
  "integer_fields_filled r = (rmax r \<noteq> None \<and> rmin r \<noteq> None \<and> truthy_opt (step r))"

text \<open>
  The invariant of the data model in the specification's words: a non-empty default and,
  for a numeric rule, \<open>min \<le> default \<le> max\<close> and a positive step. A cluster-resource
  rule is numeric when its name is an integer name of the catalog, a parameter rule when
  its \<^verbatim>\<open>type\<close> is \<^verbatim>\<open>integer\<close>.
\<close>

fun number_le :: "jsval \<Rightarrow> jsval \<Rightarrow> bool" where
  "number_le (Num x) (Num y) = (x \<le> y)"
| "number_le NegInf (Num y) = True"
| "number_le NegInf NegInf = True"
| "number_le NegInf PosInf = True"
| "number_le (Num x) PosInf = True"
| "number_le PosInf PosInf = True"
| "number_le _ _ = False"

definition js_le :: "jsval option \<Rightarrow> jsval option \<Rightarrow> bool" where
  "js_le a b = (case (a, b) of (Some x, Some y) \<Rightarrow> number_le x y | _ \<Rightarrow> False)"

definition js_positive :: "jsval option \<Rightarrow> bool" where
  "js_positive a = (case a of Some (Num x) \<Rightarrow> 0 < x | Some PosInf \<Rightarrow> True | _ \<Rightarrow> False)"

definition rule_invariant :: "bool \<Rightarrow> rule \<Rightarrow> bool" where
  "rule_invariant numeric r =
     (truthy_opt (default_value r) \<and>
      (if numeric
       then js_le (rmin r) (default_value r) \<and> js_le (default_value r) (rmax r) \<and>
            js_positive (step r)
       else True))"

definition slurm_rule_invariant :: "catalog \<Rightarrow> string \<times> rule \<Rightarrow> bool" where
  "slurm_rule_invariant cat e = rule_invariant (fst e \<in> set (slurm_integer_configs cat)) (snd e)"

definition param_rule_invariant :: "string \<times> rule \<Rightarrow> bool" where
  "param_rule_invariant e = rule_invariant (type (snd e) = Some ''integer'') (snd e)"

definition rules_invariant :: "catalog \<Rightarrow> executableManifest \<Rightarrow> bool" where
  "rules_invariant cat m =
     (list_all (slurm_rule_invariant cat) (slurm_input_rules m) \<and>
      list_all param_rule_invariant (param_rules m))"

text \<open>\<^verbatim>\<open>default_hpc\<close> is a member of \<^verbatim>\<open>supported_hpc\<close>.\<close>

definition default_hpc_supported :: "executableManifest \<Rightarrow> bool" where
  "default_hpc_supported m =
     (case default_hpc m of
        None \<Rightarrow> False
      | Some h \<Rightarrow> (case supported_hpc m of None \<Rightarrow> False | Some hs \<Rightarrow> h \<in> set hs))"

text \<open>
  What the invariant asks of the document's own rule with default \<open>n\<close>: a bound or step
  that the document gives (with a truthy value) respects the invariant, and where the
  validator fills \<^verbatim>\<open>max\<close> (twice the default) or \<^verbatim>\<open>min\<close> (zero) the default is not
  negative.
\<close>

definition bounds_respected :: "rat \<Rightarrow> rule \<Rightarrow> bool" where
  "bounds_respected n r =
     ((if truthy_opt (rmax r) then js_le (Some (Num n)) (rmax r) else 0 \<le> n) \<and>
      (if truthy_opt (rmin r) then js_le (rmin r) (Some (Num n)) else 0 \<le> n) \<and>
      (if truthy_opt (step r) then js_positive (step r) else True))"

text \<open>The defaulting of an integer rule with default \<open>n\<close>, from the input rule \<open>r\<close> to the
  output rule \<open>r'\<close>: a bound or step that \<open>r\<close> lacks is, in \<open>r'\<close>, twice the default
  (the infinity of its sign when \<open>2 * n\<close> is beyond \<^verbatim>\<open>Number.MAX_VALUE\<close>), \<open>0\<close> and \<open>1\<close>.\<close>

definition integer_rule_filled :: "rule \<Rightarrow> rule \<Rightarrow> rat \<Rightarrow> bool" where
  "integer_rule_filled r r' n =
     ((if rmax r = None
       then rmax r' = Some (if \<bar>2 * n\<bar> \<le> MAX_VALUE then Num (2 * n)
                            else if 0 < n then PosInf else NegInf)
       else True) \<and>
      (if rmin r = None then rmin r' = Some (Num 0) else True) \<and>
      (if step r = None then step r' = Some (Num 1) else True))"

section \<open>Example inputs\<close>

text \<open>A catalog of the shape that the names of the lists describe: the unitless, storage
  and time names are the integer names, and the integer and string-option names together
  are all names.\<close>

definition example_catalog :: catalog where
  "example_catalog =
     \<lparr> slurm_configs = [''memory'', ''walltime'', ''num_of_task'', ''partition''],
       slurm_integer_configs = [''memory'', ''walltime'', ''num_of_task''],
       slurm_integer_none_unit_config = [''num_of_task''],
       slurm_integer_storage_unit_config = [''memory''],
       slurm_integer_time_unit_config = [''walltime''],
       slurm_string_option_configs = [''partition''] \<rparr>"

text \<open>A \<open>ToNumber\<close> and a \<open>ToString\<close> for examples in which no conversion occurs.\<close>

definition no_number :: "string \<Rightarrow> jsval" where
  "no_number s = NaN"

definition no_string :: "jsval \<Rightarrow> string" where
  "no_string v = []"

definition empty_rule :: rule where
  "empty_rule = \<lparr> type = None, default_value = None, unit = None, rmax = None, rmin = None,
                  step = None, options = None \<rparr>"

definition empty_document :: rawManifest where
  "empty_document =
     \<lparr> raw_name = None, raw_container = None, raw_connector = None,
       raw_pre_processing_stage = None, raw_execution_stage = None,
       raw_post_processing_stage = None, raw_description = None,
       raw_estimated_runtime = None, raw_supported_hpc = None, raw_default_hpc = None,
       raw_repository = None, raw_require_upload_data = None,
       raw_slurm_input_rules = None, raw_param_rules = None \<rparr>"

text \<open>\<^verbatim>\<open>{"param_rules": {"threads": {"type": "integer", "default_value": 5, "max": 3,
  "min": 10, "step": -1}}}\<close>\<close>

definition bounds_document :: rawManifest where
  "bounds_document = empty_document
     \<lparr> raw_param_rules := Some [(''threads'',
          Object (empty_rule\<lparr> type := Some ''integer'', default_value := Some (Num 5),
                       rmax := Some (Num 3), rmin := Some (Num 10), step := Some (Num (- 1)) \<rparr>))] \<rparr>"

text \<open>\<^verbatim>\<open>{"slurm_input_rules": {"walltime": {"default_value": 5}},
  "param_rules": {"threads": {"type": "integer", "default_value": 3}}}\<close>\<close>

definition rules_document :: rawManifest where
  "rules_document = empty_document
     \<lparr> raw_slurm_input_rules :=
         Some [(''walltime'', Object (empty_rule\<lparr> default_value := Some (Num 5) \<rparr>))],
       raw_param_rules := Some [(''threads'',
          Object (empty_rule\<lparr> type := Some ''integer'', default_value := Some (Num 3) \<rparr>))] \<rparr>"

text \<open>\<^verbatim>\<open>{"slurm_input_rules": {"num_of_task": {"default_value": 4}}}\<close>\<close>

definition unitless_document :: rawManifest where
  "unitless_document = empty_document
     \<lparr> raw_slurm_input_rules :=
         Some [(''num_of_task'', Object (empty_rule\<lparr> default_value := Some (Num 4) \<rparr>))] \<rparr>"

text \<open>\<^verbatim>\<open>{"supported_hpc": ["expanse", "anvil"]}\<close> and
  \<^verbatim>\<open>{"supported_hpc": ["expanse"], "default_hpc": "anvil"}\<close>\<close>

definition listed_hpc_document :: rawManifest where
  "listed_hpc_document = empty_document \<lparr> raw_supported_hpc := Some (Some [''expanse'', ''anvil'']) \<rparr>"

definition unlisted_hpc_document :: rawManifest where
  "unlisted_hpc_document = empty_document
     \<lparr> raw_supported_hpc := Some (Some [''expanse'']), raw_default_hpc := Some ''anvil'' \<rparr>"

text \<open>\<^verbatim>\<open>{"param_rules": {"threads": null}}\<close>\<close>

definition null_rule_document :: rawManifest where
  "null_rule_document = empty_document \<lparr> raw_param_rules := Some [(''threads'', Null_rule)] \<rparr>"

text \<open>What the validator returns for the document \<^verbatim>\<open>{}\<close> of the repository at \<open>addr\<close>.\<close>

definition default_manifest :: "string \<Rightarrow> executableManifest" where
  "default_manifest addr = fill_default_hpc (assign_defaults addr empty_document)"

section \<open>Repositories, collaborators and the state of the process\<close>

text \<open>
  The \<^verbatim>\<open>Git\<close> entity (\<^verbatim>\<open>../models/Git\<close>) with the fields that the code reads. \<open>git_id\<close> is
  the property \<^verbatim>\<open>id\<close>. \<^verbatim>\<open>updatedAt\<close> is \<^verbatim>\<open>undefined\<close>, \<^verbatim>\<open>null\<close> (what the column
  transformer of the entities returns for an empty column) or a date, in milliseconds.
\<close>

datatype js_date = Undefined | Null | Date int

record git =
  git_id :: string
  address :: string
  sha :: "string option"
  updatedAt :: js_date

text \<open>\<^verbatim>\<open>if (git.sha)\<close>: the pinned revision, when the property is a non-empty string.\<close>

definition pinned :: "git \<Rightarrow> string option" where
  "pinned g = (case sha g of None \<Rightarrow> None | Some r \<Rightarrow> if r = [] then None else Some r)"

text \<open>What \<^verbatim>\<open>fetch\<close> of isomorphic-git resolves to, as far as the code reads it.\<close>

record fetchResult =
  fetchHead :: "string option"
  defaultBranch :: "string option"

text \<open>
  The collaborators are parameters: file system, version control, shell, clock and record
  store act on a world \<open>'w\<close> that the model does not look into, and each call either
  returns (\<open>Inr\<close>) or throws (\<open>Inl\<close>). \<open>git_log\<close> returns the \<^verbatim>\<open>oid\<close>s of the commits that
  \<^verbatim>\<open>log\<close> resolves to; \<open>update_updatedAt\<close> is the query that sets \<^verbatim>\<open>updatedAt\<close> of the
  repository's record to the current date. The constants of \<^verbatim>\<open>configs/config\<close> and
  \<^verbatim>\<open>utils/types\<close> and the built-ins \<^verbatim>\<open>JSON.parse\<close>, \<open>ToNumber\<close> and \<open>ToString\<close> are parameters as
  well.
\<close>

record 'w env =
  root_path :: string
  types :: catalog
  JSON_parse :: "string \<Rightarrow> rawManifest option"
  ToNumber :: "string \<Rightarrow> jsval"
  ToString :: "jsval \<Rightarrow> string"
  now :: "'w \<Rightarrow> int"
  removeZip :: "string \<Rightarrow> 'w \<Rightarrow> (error + unit) \<times> 'w"
  existsSync :: "string \<Rightarrow> 'w \<Rightarrow> bool"
  rimraf_sync :: "string \<Rightarrow> 'w \<Rightarrow> (error + unit) \<times> 'w"
  mkdir :: "string \<Rightarrow> 'w \<Rightarrow> (error + unit) \<times> 'w"
  clone :: "string \<Rightarrow> string \<Rightarrow> 'w \<Rightarrow> (error + unit) \<times> 'w"
  checkout :: "string \<Rightarrow> string \<Rightarrow> 'w \<Rightarrow> (error + unit) \<times> 'w"
  pull :: "string \<Rightarrow> 'w \<Rightarrow> (error + unit) \<times> 'w"
  fetch :: "string \<Rightarrow> string \<Rightarrow> 'w \<Rightarrow> (error + fetchResult) \<times> 'w"
  git_log :: "string \<Rightarrow> 'w \<Rightarrow> (error + string list) \<times> 'w"
  readFile :: "string \<Rightarrow> 'w \<Rightarrow> (error + string) \<times> 'w"
  exec :: "string \<Rightarrow> 'w \<Rightarrow> (error + unit) \<times> 'w"
  update_updatedAt :: "string \<Rightarrow> 'w \<Rightarrow> (error + unit) \<times> 'w"

text \<open>The calls made to the collaborators, with their arguments.\<close>

datatype call =
    RemoveZip string
  | ExistsSync string
  | Rimraf string
  | Mkdir string
  | Clone string string
  | Checkout string string
  | Pull string
  | Fetch string string
  | Log string
  | ReadFile string
  | Exec string
  | UpdateUpdatedAt string

text \<open>
  The state of the process: the world, the static \<^verbatim>\<open>GitUtil.cache\<close>, and the calls made
  so far, oldest first. An action returns a value or throws, and leaves a state in
  both cases.
\<close>

record 'w state =
  world :: 'w
  cache :: "string \<rightharpoonup> executableManifest"
  calls :: "call list"

type_synonym ('w, 'a) action = "'w state \<Rightarrow> (error + 'a) \<times> 'w state"

definition ret :: "'a \<Rightarrow> ('w, 'a) action" where
  "ret x s = (Inr x, s)"

definition throw :: "error \<Rightarrow> ('w, 'a) action" where
  "throw e s = (Inl e, s)"

text \<open>\<^verbatim>\<open>const x = await m; f(x)\<close>: an exception of \<open>m\<close> ends the sequence.\<close>

definition bind :: "('w, 'a) action \<Rightarrow> ('a \<Rightarrow> ('w, 'b) action) \<Rightarrow> ('w, 'b) action" where
  "bind m f s = (case m s of (Inl e, s') \<Rightarrow> (Inl e, s') | (Inr x, s') \<Rightarrow> f x s')"

text \<open>\<^verbatim>\<open>try { m } catch (e) { h(e) }\<close>.\<close>

definition try_catch :: "('w, 'a) action \<Rightarrow> (error \<Rightarrow> ('w, 'a) action) \<Rightarrow> ('w, 'a) action" where
  "try_catch m h s = (case m s of (Inl e, s') \<Rightarrow> h e s' | (Inr x, s') \<Rightarrow> (Inr x, s'))"

text \<open>A call to a collaborator: it is recorded, and it changes the world.\<close>

definition perform :: "call \<Rightarrow> ('w \<Rightarrow> (error + 'a) \<times> 'w) \<Rightarrow> ('w, 'a) action" where
  "perform c f s =
     (case f (world s) of (r, w') \<Rightarrow> (r, s\<lparr> world := w', calls := calls s @ [c] \<rparr>))"

definition do_removeZip :: "'w env \<Rightarrow> string \<Rightarrow> ('w, unit) action" where
  "do_removeZip env p = perform (RemoveZip p) (removeZip env p)"

definition do_existsSync :: "'w env \<Rightarrow> string \<Rightarrow> ('w, bool) action" where
  "do_existsSync env p = perform (ExistsSync p) (\<lambda>w. (Inr (existsSync env p w), w))"

definition do_rimraf :: "'w env \<Rightarrow> string \<Rightarrow> ('w, unit) action" where
  "do_rimraf env p = perform (Rimraf p) (rimraf_sync env p)"

definition do_mkdir :: "'w env \<Rightarrow> string \<Rightarrow> ('w, unit) action" where
  "do_mkdir env p = perform (Mkdir p) (mkdir env p)"

definition do_clone :: "'w env \<Rightarrow> string \<Rightarrow> string \<Rightarrow> ('w, unit) action" where
  "do_clone env p url = perform (Clone p url) (clone env p url)"

definition do_checkout :: "'w env \<Rightarrow> string \<Rightarrow> string \<Rightarrow> ('w, unit) action" where
  "do_checkout env p ref = perform (Checkout p ref) (checkout env p ref)"

definition do_pull :: "'w env \<Rightarrow> string \<Rightarrow> ('w, unit) action" where
  "do_pull env p = perform (Pull p) (pull env p)"

definition do_fetch :: "'w env \<Rightarrow> string \<Rightarrow> string \<Rightarrow> ('w, fetchResult) action" where
  "do_fetch env p url = perform (Fetch p url) (fetch env p url)"

definition do_log :: "'w env \<Rightarrow> string \<Rightarrow> ('w, string list) action" where
  "do_log env p = perform (Log p) (git_log env p)"

definition do_readFile :: "'w env \<Rightarrow> string \<Rightarrow> ('w, string) action" where
  "do_readFile env p = perform (ReadFile p) (readFile env p)"

definition do_exec :: "'w env \<Rightarrow> string \<Rightarrow> ('w, unit) action" where
  "do_exec env cmd = perform (Exec cmd) (exec env cmd)"

definition do_update_updatedAt :: "'w env \<Rightarrow> string \<Rightarrow> ('w, unit) action" where
  "do_update_updatedAt env i = perform (UpdateUpdatedAt i) (update_updatedAt env i)"

text \<open>\<^verbatim>\<open>new Date().getTime()\<close>, and the reads and writes of \<^verbatim>\<open>GitUtil.cache\<close>.\<close>

definition get_now :: "'w env \<Rightarrow> ('w, int) action" where
  "get_now env s = (Inr (now env (world s)), s)"

definition get_cache :: "('w, string \<rightharpoonup> executableManifest) action" where
  "get_cache s = (Inr (cache s), s)"

definition put_cache :: "string \<Rightarrow> executableManifest \<Rightarrow> ('w, unit) action" where
  "put_cache k m s = (Inr (), s\<lparr> cache := (cache s)(k \<mapsto> m) \<rparr>)"

text \<open>\<^verbatim>\<open>path.join\<close> for two segments that need no normalisation.\<close>

definition path_join :: "string \<Rightarrow> string \<Rightarrow> string" where
  "path_join a b = a @ ''/'' @ b"

section \<open>GitUtil: the full mirror\<close>

definition getLocalPath :: "'w env \<Rightarrow> string \<Rightarrow> string" where
  "getLocalPath env gitId = path_join (root_path env) gitId"

definition deleteAndPull :: "'w env \<Rightarrow> git \<Rightarrow> ('w, unit) action" where
  "deleteAndPull env g =
     (let localPath = getLocalPath env (git_id g) in
      bind (do_rimraf env localPath) (\<lambda>_.
      bind (do_mkdir env localPath) (\<lambda>_.
      bind (do_clone env localPath (address g)) (\<lambda>_.
      case pinned g of
        Some ref \<Rightarrow> do_checkout env localPath ref
      | None \<Rightarrow> ret ()))))"

text \<open>
  \<^verbatim>\<open>outOfDate\<close>. \<^verbatim>\<open>local[0].oid\<close> throws a \<^verbatim>\<open>TypeError\<close> when \<^verbatim>\<open>log\<close> resolves to an empty
  array. The result is \<^verbatim>\<open>(git.sha && localSha == git.sha) || remoteSha !== localSha\<close>.
\<close>

definition outOfDate :: "'w env \<Rightarrow> git \<Rightarrow> ('w, bool) action" where
  "outOfDate env g =
     (let localPath = getLocalPath env (git_id g) in
      bind (do_fetch env localPath (address g)) (\<lambda>remote.
      case fetchHead remote of
        None \<Rightarrow> ret True
      | Some head \<Rightarrow>
          (let remoteSha = (case pinned g of Some p \<Rightarrow> p | None \<Rightarrow> head) in
           bind (do_log env localPath) (\<lambda>local.
           case local of
             [] \<Rightarrow> throw TypeError
           | localSha # _ \<Rightarrow>
               ret ((case pinned g of Some p \<Rightarrow> localSha = p | None \<Rightarrow> False) \<or>
                    remoteSha \<noteq> localSha)))))"

definition refreshGit :: "'w env \<Rightarrow> git \<Rightarrow> ('w, bool) action" where
  "refreshGit env g =
     (let localPath = getLocalPath env (git_id g) in
      bind (do_removeZip env localPath) (\<lambda>_.
      bind (do_existsSync env localPath) (\<lambda>exists.
      if \<not> exists then bind (deleteAndPull env g) (\<lambda>_. ret True)
      else
        bind (outOfDate env g) (\<lambda>stale.
        if stale then
          bind (try_catch
                  (case pinned g of
                     Some ref \<Rightarrow> do_checkout env localPath ref
                   | None \<Rightarrow> do_pull env localPath)
                  (\<lambda>_. deleteAndPull env g)) (\<lambda>_.
          bind (do_update_updatedAt env (git_id g)) (\<lambda>_.
          ret True))
        else ret False))))"

text \<open>The exception of \<^verbatim>\<open>processExecutableManifest\<close> as an exception of an action.\<close>

definition process_manifest :: "'w env \<Rightarrow> string \<Rightarrow> string \<Rightarrow> ('w, executableManifest) action"
  where
  "process_manifest env raw addr =
     (case processExecutableManifest (types env) (ToNumber env) (ToString env) (JSON_parse env)
             raw addr of
        Inl e \<Rightarrow> throw e
      | Inr result \<Rightarrow> ret result)"

text \<open>
  \<^verbatim>\<open>GitUtil.getExecutableManifest\<close>. The test \<^verbatim>\<open>git.id in GitUtil.cache\<close> is a lookup in the
  cache (an id that names a property of \<^verbatim>\<open>Object.prototype\<close> is outside the model). The
  second read, in the \<^verbatim>\<open>catch\<close> block, is not guarded: its exception is the exception of
  the call.
\<close>

definition getExecutableManifest :: "'w env \<Rightarrow> git \<Rightarrow> ('w, executableManifest) action" where
  "getExecutableManifest env g =
     (let localPath = getLocalPath env (git_id g);
          executableFolderPath = path_join localPath ''manifest.json'' in
      bind (refreshGit env g) (\<lambda>refreshed.
      bind get_cache (\<lambda>c.
      case (if \<not> refreshed then c (git_id g) else None) of
        Some m \<Rightarrow> ret m
      | None \<Rightarrow>
          bind (try_catch (do_readFile env executableFolderPath)
                  (\<lambda>_. bind (deleteAndPull env g) (\<lambda>_.
                        do_readFile env executableFolderPath))) (\<lambda>rawExecutableManifest.
          bind (process_manifest env rawExecutableManifest (address g)) (\<lambda>result.
          bind (put_cache (git_id g) result) (\<lambda>_.
          ret result))))))"

section \<open>ManifestUtil: the manifest-only mirror\<close>

text \<open>\<^verbatim>\<open>s.replace(pat, rep)\<close> with a string pattern: the first occurrence is replaced.\<close>

fun replace_first :: "string \<Rightarrow> string \<Rightarrow> string \<Rightarrow> string" where
  "replace_first pat rep [] = (if pat = [] then rep else [])"
| "replace_first pat rep (c # cs) =
     (if take (length pat) (c # cs) = pat then rep @ drop (length pat) (c # cs)
      else c # replace_first pat rep cs)"

definition getManifestUrl :: "git \<Rightarrow> string \<Rightarrow> string" where
  "getManifestUrl g commit =
     replace_first ''github.com'' ''raw.githubusercontent.com''
       (replace_first ''.git'' [] (address g)) @ ''/'' @ commit @ ''/manifest.json''"

definition wget_manifest :: "string \<Rightarrow> string \<Rightarrow> string" where
  "wget_manifest localPath url = ''cd '' @ localPath @ '' && wget -O manifest.json '' @ url"

definition getLocalManifestPath :: "'w env \<Rightarrow> string \<Rightarrow> string" where
  "getLocalManifestPath env gitId = path_join (path_join (root_path env) ''manifests'') gitId"

text \<open>\<^verbatim>\<open>getDefaultBranch\<close>: the last section of \<^verbatim>\<open>branch.split("/")\<close>.\<close>

definition getDefaultBranch :: "'w env \<Rightarrow> git \<Rightarrow> ('w, string) action" where
  "getDefaultBranch env g =
     bind (do_fetch env (getLocalPath env (git_id g)) (address g)) (\<lambda>remote.
     case defaultBranch remote of
       None \<Rightarrow> ret ''main''
     | Some branch \<Rightarrow> ret (rev (takeWhile (\<lambda>c. c \<noteq> CHR ''/'') (rev branch))))"

definition deleteAndPullManifest :: "'w env \<Rightarrow> git \<Rightarrow> ('w, unit) action" where
  "deleteAndPullManifest env g =
     (let localPath = getLocalManifestPath env (git_id g) in
      bind (do_rimraf env localPath) (\<lambda>_.
      bind (do_mkdir env localPath) (\<lambda>_.
      case pinned g of
        Some ref \<Rightarrow> do_exec env (wget_manifest localPath (getManifestUrl g ref))
      | None \<Rightarrow>
          bind (getDefaultBranch env g) (\<lambda>branch.
          do_exec env (wget_manifest localPath (getManifestUrl g branch))))))"

text \<open>
  \<^verbatim>\<open>secsSinceUpdate\<close> of \<^verbatim>\<open>refreshGitManifest\<close>. With \<^verbatim>\<open>updatedAt\<close> undefined the date
  \<open>-999999\<close> stands in; with \<^verbatim>\<open>null\<close> the call \<^verbatim>\<open>getTime()\<close> throws inside the
  \<^verbatim>\<open>try\<close> and the initial \<open>1000000\<close> stays. The division of a whole number of
  milliseconds by \<open>1000.0\<close> is taken in the rationals; the comparison with \<open>120\<close> comes out
  the same in doubles.
\<close>

definition secsSinceUpdate :: "int \<Rightarrow> js_date \<Rightarrow> rat" where
  "secsSinceUpdate t u =
     (case u of
        Undefined \<Rightarrow> (of_int t - (- 999999)) / 1000
      | Null \<Rightarrow> 1000000
      | Date d \<Rightarrow> (of_int t - of_int d) / 1000)"

definition refreshGitManifest :: "'w env \<Rightarrow> git \<Rightarrow> ('w, unit) action" where
  "refreshGitManifest env g =
     (let localPath = getLocalManifestPath env (git_id g) in
      bind (do_existsSync env localPath) (\<lambda>exists.
      bind (if \<not> exists
            then bind (do_mkdir env localPath) (\<lambda>_.
                 do_exec env (wget_manifest localPath (getManifestUrl g ''main'')))
            else ret ()) (\<lambda>_.
      bind (get_now env) (\<lambda>t.
      if 120 < secsSinceUpdate t (updatedAt g) then
        bind (try_catch
                (case pinned g of
                   Some ref \<Rightarrow> do_exec env (wget_manifest localPath (getManifestUrl g ref))
                 | None \<Rightarrow> do_exec env (wget_manifest localPath (getManifestUrl g ''main'')))
                (\<lambda>_. deleteAndPullManifest env g)) (\<lambda>_.
        do_update_updatedAt env (git_id g))
      else ret ()))))"

definition ManifestUtil_getExecutableManifest ::
  "'w env \<Rightarrow> git \<Rightarrow> ('w, executableManifest) action" where
  "ManifestUtil_getExecutableManifest env g =
     (let localPath = getLocalManifestPath env (git_id g);
          executableFolderPath = path_join localPath ''manifest.json'' in
      bind (refreshGitManifest env g) (\<lambda>_.
      bind (try_catch (do_readFile env executableFolderPath)
              (\<lambda>_. bind (deleteAndPullManifest env g) (\<lambda>_.
                    do_readFile env executableFolderPath))) (\<lambda>rawExecutableManifest.
      process_manifest env rawExecutableManifest (address g))))"

section \<open>Observing a run\<close>

text \<open>The calls made between two states of one run.\<close>

definition calls_since :: "'w state \<Rightarrow> 'w state \<Rightarrow> call list" where
  "calls_since s s' = drop (length (calls s)) (calls s')"

text \<open>Classes of calls: the deletion of a mirror directory, the read of a file, and the
  calls that change the working copy of a mirror (deleting, creating, cloning, checking
  out, pulling and downloading). \<^verbatim>\<open>removeZip\<close> and \<^verbatim>\<open>fetch\<close> leave the checked-out revision
  and the files of the working copy as they are.\<close>

fun is_rimraf :: "call \<Rightarrow> bool" where
  "is_rimraf (Rimraf p) = True"
| "is_rimraf _ = False"

fun is_read :: "call \<Rightarrow> bool" where
  "is_read (ReadFile p) = True"
| "is_read _ = False"

fun mutates_mirror :: "call \<Rightarrow> bool" where
  "mutates_mirror (Rimraf p) = True"
| "mutates_mirror (Mkdir p) = True"
| "mutates_mirror (Clone p u) = True"
| "mutates_mirror (Checkout p r) = True"
| "mutates_mirror (Pull p) = True"
| "mutates_mirror (Exec c) = True"
| "mutates_mirror _ = False"

text \<open>An action that neither reads nor writes the cache.\<close>

definition cache_blind :: "('w, 'a) action \<Rightarrow> bool" where
  "cache_blind act =
     (\<forall>s c. act (s\<lparr> cache := c \<rparr>) = (case act s of (r, s') \<Rightarrow> (r, s'\<lparr> cache := c \<rparr>)))"

text \<open>The \<^verbatim>\<open>try\<close>/\<^verbatim>\<open>catch\<close> block of \<^verbatim>\<open>GitUtil.getExecutableManifest\<close> around the read
  of the manifest file.\<close>

definition read_or_recreate :: "'w env \<Rightarrow> git \<Rightarrow> ('w, string) action" where
  "read_or_recreate env g =
     try_catch (do_readFile env (path_join (getLocalPath env (git_id g)) ''manifest.json''))
       (\<lambda>_. bind (deleteAndPull env g) (\<lambda>_.
             do_readFile env (path_join (getLocalPath env (git_id g)) ''manifest.json'')))"

text \<open>The calls of one \<^verbatim>\<open>deleteAndPull\<close> that completes, and of one
  \<^verbatim>\<open>deleteAndPullManifest\<close> that completes; \<open>branch\<close> is what \<^verbatim>\<open>getDefaultBranch\<close>
  returned to it.\<close>

definition recreate_calls :: "'w env \<Rightarrow> git \<Rightarrow> call list" where
  "recreate_calls env g =
     [Rimraf (getLocalPath env (git_id g)), Mkdir (getLocalPath env (git_id g)),
      Clone (getLocalPath env (git_id g)) (address g)] @
     (case pinned g of Some ref \<Rightarrow> [Checkout (getLocalPath env (git_id g)) ref] | None \<Rightarrow> [])"

definition recreate_manifest_calls :: "'w env \<Rightarrow> git \<Rightarrow> string \<Rightarrow> call list" where
  "recreate_manifest_calls env g branch =
     [Rimraf (getLocalManifestPath env (git_id g)), Mkdir (getLocalManifestPath env (git_id g))] @
     (case pinned g of
        Some ref \<Rightarrow>
          [Exec (wget_manifest (getLocalManifestPath env (git_id g)) (getManifestUrl g ref))]
      | None \<Rightarrow>
          [Fetch (getLocalPath env (git_id g)) (address g),
           Exec (wget_manifest (getLocalManifestPath env (git_id g)) (getManifestUrl g branch))])"

text \<open>
  What \<^verbatim>\<open>GitUtil.getExecutableManifest\<close> and \<^verbatim>\<open>ManifestUtil.getExecutableManifest\<close> make
  of a read of the manifest file that ended in the state \<open>s\<close>: the exception of the read,
  or the outcome of \<^verbatim>\<open>processExecutableManifest\<close> on the text, stored in the cache by
  the former.
\<close>

definition outcome_cached ::
  "'w env \<Rightarrow> git \<Rightarrow> error + string \<Rightarrow> 'w state \<Rightarrow> (error + executableManifest) \<times> 'w state"
  where
  "outcome_cached env g r s =
     (case r of
        Inl e \<Rightarrow> (Inl e, s)
      | Inr raw \<Rightarrow>
          (case processExecutableManifest (types env) (ToNumber env) (ToString env)
                  (JSON_parse env) raw (address g) of
             Inl e \<Rightarrow> (Inl e, s)
           | Inr m \<Rightarrow> (Inr m, s\<lparr> cache := (cache s)(git_id g \<mapsto> m) \<rparr>)))"

definition outcome_plain ::
  "'w env \<Rightarrow> git \<Rightarrow> error + string \<Rightarrow> 'w state \<Rightarrow> (error + executableManifest) \<times> 'w state"
  where
  "outcome_plain env g r s =
     (case r of
        Inl e \<Rightarrow> (Inl e, s)
      | Inr raw \<Rightarrow>
          (processExecutableManifest (types env) (ToNumber env) (ToString env)
             (JSON_parse env) raw (address g), s))"

text \<open>
  The manifest-only mirror is found fresh: \<^verbatim>\<open>refreshGitManifest\<close> only tests that the
  directory exists. It is found stale: the test is followed by the download of the
  manifest at the pinned revision, or at \<^verbatim>\<open>main\<close>.
\<close>

definition manifest_found_fresh :: "'w env \<Rightarrow> git \<Rightarrow> 'w state \<Rightarrow> bool" where
  "manifest_found_fresh env g s =
     (refreshGitManifest env g s =
        (Inr (), s\<lparr> calls := calls s @ [ExistsSync (getLocalManifestPath env (git_id g))] \<rparr>))"

definition manifest_found_stale :: "'w env \<Rightarrow> git \<Rightarrow> 'w state \<Rightarrow> bool" where
  "manifest_found_stale env g s =
     (take 2 (calls_since s (snd (refreshGitManifest env g s))) =
        [ExistsSync (getLocalManifestPath env (git_id g)),
         Exec (wget_manifest (getLocalManifestPath env (git_id g))
                 (getManifestUrl g (case pinned g of Some ref \<Rightarrow> ref | None \<Rightarrow> ''main'')))])"

section \<open>A simulated set of collaborators\<close>

text \<open>
  One remote repository with a head revision and, possibly, a manifest file, and one local
  mirror. Cloning and pulling copy the remote head and manifest, a download by the shell
  copies the manifest; reading fails when the local manifest is absent. \<^verbatim>\<open>JSON.parse\<close>
  knows two texts, \<^verbatim>\<open>{}\<close> and a document with a \<^verbatim>\<open>null\<close> rule, and throws on any other.
  It serves to run the model on concrete inputs.
\<close>

record sim =
  remote_head :: "string option"
  remote_manifest :: "string option"
  local_exists :: bool
  local_head :: "string option"
  local_manifest :: "string option"
  clock :: int

definition sim_env :: "sim env" where
  "sim_env =
     \<lparr> root_path = ''/data'',
       types = example_catalog,
       JSON_parse = (\<lambda>t. if t = ''{}'' then Some empty_document
                         else if t = ''{\"param_rules\": {\"threads\": null}}''
                         then Some null_rule_document else None),
       ToNumber = no_number,
       ToString = no_string,
       now = clock,
       removeZip = (\<lambda>p w. (Inr (), w)),
       existsSync = (\<lambda>p w. local_exists w),
       rimraf_sync = (\<lambda>p w. (Inr (),
          w\<lparr> local_exists := False, local_head := None, local_manifest := None \<rparr>)),
       mkdir = (\<lambda>p w. (Inr (), w\<lparr> local_exists := True \<rparr>)),
       clone = (\<lambda>p u w. case remote_head w of
           None \<Rightarrow> (Inl (External ''clone''), w)
         | Some h \<Rightarrow> (Inr (), w\<lparr> local_head := Some h, local_manifest := remote_manifest w \<rparr>)),
       checkout = (\<lambda>p r w. (Inr (), w\<lparr> local_head := Some r \<rparr>)),
       pull = (\<lambda>p w. case remote_head w of
           None \<Rightarrow> (Inl (External ''pull''), w)
         | Some h \<Rightarrow> (Inr (), w\<lparr> local_head := Some h, local_manifest := remote_manifest w \<rparr>)),
       fetch = (\<lambda>p u w. (Inr \<lparr> fetchHead = remote_head w,
                                 defaultBranch = Some ''refs/heads/main'' \<rparr>, w)),
       git_log = (\<lambda>p w. case local_head w of
           None \<Rightarrow> (Inl (External ''log''), w)
         | Some h \<Rightarrow> (Inr [h], w)),
       readFile = (\<lambda>p w. case local_manifest w of
           None \<Rightarrow> (Inl (External ''ENOENT''), w)
         | Some t \<Rightarrow> (Inr t, w)),
       exec = (\<lambda>c w. (Inr (), w\<lparr> local_manifest := remote_manifest w \<rparr>)),
       update_updatedAt = (\<lambda>i w. (Inr (), w)) \<rparr>"

text \<open>A repository without and with a pinned revision, last synchronised at time \<open>0\<close>;
  a missing mirror and a mirror at the remote head, at time 30 s; the argument is the text
  of the remote manifest.\<close>

definition demo :: git where
  "demo = \<lparr> git_id = ''demo'', address = ''https://github.com/org/demo.git'', sha = None,
             updatedAt = Date 0 \<rparr>"

definition demo_pinned :: git where
  "demo_pinned = demo\<lparr> sha := Some ''abc'' \<rparr>"

definition missing_mirror :: "string option \<Rightarrow> sim state" where
  "missing_mirror text =
     \<lparr> world = \<lparr> remote_head = Some ''abc'', remote_manifest = text, local_exists = False,
                 local_head = None, local_manifest = None, clock = 30000 \<rparr>,
       cache = Map.empty, calls = [] \<rparr>"

definition synced_mirror :: "string option \<Rightarrow> sim state" where
  "synced_mirror text =
     \<lparr> world = \<lparr> remote_head = Some ''abc'', remote_manifest = text, local_exists = True,
                 local_head = Some ''abc'', local_manifest = text, clock = 30000 \<rparr>,
       cache = Map.empty, calls = [] \<rparr>"

text \<open>The same collaborators with a remote that refuses clones and downloads.\<close>

definition refusing_env :: "sim env" where
  "refusing_env =
     sim_env\<lparr> clone := (\<lambda>p u w. (Inl (External ''clone refused''), w)),
               exec := (\<lambda>c w. (Inl (External ''download refused''), w)) \<rparr>"

text \<open>A mirror at the remote head whose manifest file is missing, of a repository that
  has the manifest \<open>text\<close>.\<close>

definition unreadable_mirror :: "string \<Rightarrow> sim state" where
  "unreadable_mirror text =
     \<lparr> world = \<lparr> remote_head = Some ''abc'', remote_manifest = Some text, local_exists = True,
                 local_head = Some ''abc'', local_manifest = None, clock = 30000 \<rparr>,
       cache = Map.empty, calls = [] \<rparr>"

text \<open>A state with the clock set to \<open>t\<close>.\<close>

definition at_time :: "int \<Rightarrow> sim state \<Rightarrow> sim state" where
  "at_time t s = s\<lparr> world := (world s)\<lparr> clock := t \<rparr> \<rparr>"

section \<open>Lemmas about the validator\<close>

lemma for_in_mem:
  "for_in body xs = Inr ys \<Longrightarrow> (k, r') \<in> set ys \<Longrightarrow>
   \<exists>rv. (k, rv) \<in> set xs \<and> body k rv = Inr (Some r')"
proof (induction body xs arbitrary: ys rule: for_in.induct)
  case (1 body)
  then show ?case by simp
next
  case (2 body k' rv rest)
  show ?case
  proof (cases "body k' rv")
    case (Inl e)
    with 2(3) show ?thesis by simp
  next
    case (Inr res)
    show ?thesis
    proof (cases res)
      case None
      with Inr 2(3) have "for_in body rest = Inr ys" by simp
      from 2(1) [OF Inr None this 2(4)] show ?thesis by auto
    next
      case (Some r0)
      with Inr 2(3) obtain rs where rs: "for_in body rest = Inr rs" and ys: "ys = (k', r0) # rs"
        by (auto split: sum.splits)
      from 2(4) ys consider "(k, r') = (k', r0)" | "(k, r') \<in> set rs" by auto
      then show ?thesis
      proof cases
        case 1
        with Inr Some show ?thesis by auto
      next
        case 2
        from "2.IH"(2) [OF Inr Some rs 2] show ?thesis by auto
      qed
    qed
  qed
qed

lemma for_in_keys: "for_in body xs = Inr ys \<Longrightarrow> fst ` set ys \<subseteq> fst ` set xs"
  using for_in_mem [of body xs ys] by force

lemma map_of_for_in:
  "distinct (map fst xs) \<Longrightarrow> for_in body xs = Inr ys \<Longrightarrow>
   map_of ys k = (case map_of xs k of None \<Rightarrow> None
                  | Some rv \<Rightarrow> (case body k rv of Inl e \<Rightarrow> None | Inr res \<Rightarrow> res))"
proof (induction body xs arbitrary: ys rule: for_in.induct)
  case (1 body)
  then show ?case by simp
next
  case (2 body k' rv rest)
  from 2(3) have d: "distinct (map fst rest)" and nk: "k' \<notin> fst ` set rest" by auto
  show ?case
  proof (cases "body k' rv")
    case (Inl e)
    with 2(4) show ?thesis by simp
  next
    case (Inr res)
    show ?thesis
    proof (cases res)
      case None
      with Inr 2(4) have r: "for_in body rest = Inr ys" by simp
      from for_in_keys [OF r] nk have "k' \<notin> fst ` set ys" by auto
      then have "map_of ys k' = None" by (simp add: map_of_eq_None_iff)
      with "2.IH"(1) [OF Inr None d r] Inr None show ?thesis by auto
    next
      case (Some r0)
      with Inr 2(4) obtain rs where rs: "for_in body rest = Inr rs" and ys: "ys = (k', r0) # rs"
        by (auto split: sum.splits)
      from "2.IH"(2) [OF Inr Some d rs] Inr Some ys show ?thesis by auto
    qed
  qed
qed


lemma integer_defaults_fields:
  "default_value (integer_defaults tn v r) = default_value r"
  "type (integer_defaults tn v r) = type r"
  "unit (integer_defaults tn v r) = unit r"
  "options (integer_defaults tn v r) = options r"
  by (simp_all add: integer_defaults_def Let_def)


lemma string_option_defaults_cases:
  assumes "string_option_defaults ts v r = Inr r'"
  obtains (items) os where "effective_options v (options r) = Items os"
      "r' = r\<lparr> options := Some (Items (if v \<in> set os then os else os @ [v])) \<rparr>"
  | (str) s where "effective_options v (options r) = Scalar (Str s)"
      "includes_string s (case v of Str d \<Rightarrow> d | _ \<Rightarrow> ts v)"
      "r' = r\<lparr> options := Some (Scalar (Str s)) \<rparr>"
proof (cases "effective_options v (options r)")
  case (Items os)
  with assms have "r' = r\<lparr> options := Some (Items (if v \<in> set os then os else os @ [v])) \<rparr>"
    by (simp add: string_option_defaults_def)
  with Items show ?thesis by (rule items)
next
  case (Scalar w)
  with assms obtain s where w: "w = Str s"
    by (cases w) (simp_all add: string_option_defaults_def)
  with assms Scalar have i: "includes_string s (case v of Str d \<Rightarrow> d | _ \<Rightarrow> ts v)"
    and r': "r' = r\<lparr> options := Some (Scalar (Str s)) \<rparr>"
    by (simp_all add: string_option_defaults_def split: if_splits)
  from Scalar w i r' show ?thesis using str by simp
qed

lemma string_option_defaults_fields:
  assumes "string_option_defaults ts v r = Inr r'"
  shows "default_value r' = default_value r" "type r' = type r" "unit r' = unit r"
    "rmax r' = rmax r" "rmin r' = rmin r" "step r' = step r"
  using assms by (cases rule: string_option_defaults_cases; simp)+






lemma param_rule_step_cases:
  assumes "param_rule_step tn ts rv = Inr (Some r')"
  obtains r v where "rv = Object r" "default_value r = Some v" "truthy v"
    "(type r = Some ''integer'' \<and> r' = integer_defaults tn v r) \<or>
     (type r = Some ''string_option'' \<and> string_option_defaults ts v r = Inr r') \<or>
     (type r = Some ''string_input'' \<and> r' = r)"
proof -
  from assms obtain r where rv: "rv = Object r"
    by (cases rv) (simp_all add: param_rule_step_def)
  from assms rv obtain v where v: "default_value r = Some v"
    by (cases "default_value r") (simp_all add: param_rule_step_def)
  from assms rv v have t: "truthy v"
    by (cases "truthy v") (simp_all add: param_rule_step_def)
  from assms rv v t obtain ty where ty: "type r = Some ty"
    by (cases "type r") (simp_all add: param_rule_step_def)
  from assms rv v t ty have mem: "ty = ''integer'' \<or> ty = ''string_option'' \<or> ty = ''string_input''"
    by (simp add: param_rule_step_def split: if_splits)
  from mem consider "ty = ''integer''" | "ty = ''string_option''" | "ty = ''string_input''" by blast
  then have "(type r = Some ''integer'' \<and> r' = integer_defaults tn v r) \<or>
     (type r = Some ''string_option'' \<and> string_option_defaults ts v r = Inr r') \<or>
     (type r = Some ''string_input'' \<and> r' = r)"
  proof cases
    case 1
    with assms rv v t ty show ?thesis
      by (simp add: param_rule_step_def Let_def integer_defaults_fields)
  next
    case 2
    with assms rv v t ty show ?thesis
      by (cases "string_option_defaults ts v r") (simp_all add: param_rule_step_def Let_def)
  next
    case 3
    with assms rv v t ty show ?thesis
      by (simp add: param_rule_step_def Let_def)
  qed
  with rv v t show thesis using that by blast
qed


lemma slurm_rule_step_cases:
  assumes "slurm_rule_step cat tn ts k rv = Inr (Some r')"
  obtains r v where "rv = Object r" "k \<in> set (slurm_configs cat)" "default_value r = Some v"
    "truthy v"
    "\<not> (k \<in> set (slurm_integer_time_unit_config cat) \<and>
        (case unit r of None \<Rightarrow> False | Some u \<Rightarrow> u \<notin> set [''Minutes'', ''Hours'', ''Days'']))"
    "\<not> (k \<in> set (slurm_integer_storage_unit_config cat) \<and>
        (case unit r of None \<Rightarrow> False | Some u \<Rightarrow> u \<notin> set [''GB'', ''MB'']))"
    "(k \<in> set (slurm_integer_none_unit_config cat) \<and> r' = r\<lparr> unit := Some ''None'' \<rparr>) \<or>
     (k \<notin> set (slurm_integer_none_unit_config cat) \<and>
      k \<notin> set (slurm_string_option_configs cat) \<and>
      r' = (if k \<in> set (slurm_integer_configs cat) then integer_defaults tn v r else r)) \<or>
     (k \<notin> set (slurm_integer_none_unit_config cat) \<and>
      k \<in> set (slurm_string_option_configs cat) \<and>
      string_option_defaults ts v
        (if k \<in> set (slurm_integer_configs cat) then integer_defaults tn v r else r) = Inr r')"
proof -
  from assms have k: "k \<in> set (slurm_configs cat)"
    by (cases "k \<in> set (slurm_configs cat)") (simp_all add: slurm_rule_step_def)
  from assms k obtain r where rv: "rv = Object r"
    by (cases rv) (simp_all add: slurm_rule_step_def)
  from assms k rv obtain v where v: "default_value r = Some v"
    by (cases "default_value r") (simp_all add: slurm_rule_step_def)
  from assms k rv v have t: "truthy v"
    by (cases "truthy v") (simp_all add: slurm_rule_step_def)
  let ?T = "k \<in> set (slurm_integer_time_unit_config cat) \<and>
        (case unit r of None \<Rightarrow> False | Some u \<Rightarrow> u \<notin> set [''Minutes'', ''Hours'', ''Days''])"
  let ?S = "k \<in> set (slurm_integer_storage_unit_config cat) \<and>
        (case unit r of None \<Rightarrow> False | Some u \<Rightarrow> u \<notin> set [''GB'', ''MB''])"
  let ?r1 = "if k \<in> set (slurm_integer_configs cat) then integer_defaults tn v r else r"
  from assms k rv v t have nT: "\<not> ?T"
    by (cases ?T) (simp_all add: slurm_rule_step_def)
  from assms k rv v t nT have nS: "\<not> ?S"
    by (cases ?S) (simp_all add: slurm_rule_step_def)
  have "(k \<in> set (slurm_integer_none_unit_config cat) \<and> r' = r\<lparr> unit := Some ''None'' \<rparr>) \<or>
     (k \<notin> set (slurm_integer_none_unit_config cat) \<and>
      k \<notin> set (slurm_string_option_configs cat) \<and> r' = ?r1) \<or>
     (k \<notin> set (slurm_integer_none_unit_config cat) \<and>
      k \<in> set (slurm_string_option_configs cat) \<and>
      string_option_defaults ts v ?r1 = Inr r')"
  proof (cases "k \<in> set (slurm_integer_none_unit_config cat)")
    case True
    with assms k rv v t nT nS show ?thesis
      by (simp add: slurm_rule_step_def)
  next
    case False
    show ?thesis
    proof (cases "k \<in> set (slurm_string_option_configs cat)")
      case so: True
      from assms k rv v t nT nS False so
      have "map_sum id Some (string_option_defaults ts v ?r1) = Inr (Some r')"
        by (simp add: slurm_rule_step_def Let_def)
      then have "string_option_defaults ts v ?r1 = Inr r'"
        by (cases "string_option_defaults ts v ?r1") simp_all
      with False so show ?thesis by simp
    next
      case nso: False
      with assms k rv v t nT nS False show ?thesis
        by (simp add: slurm_rule_step_def Let_def)
    qed
  qed
  with rv k v t nT nS show thesis using that by blast
qed


lemma normalize_cases:
  assumes "normalizeManifest cat tn ts doc a = Inr m"
  obtains ss ps where
    "for_in (slurm_rule_step cat tn ts) (assigned_slurm_input_rules doc) = Inr ss"
    "for_in (\<lambda>k. param_rule_step tn ts) (assigned_param_rules doc) = Inr ps"
    "m = (fill_default_hpc (assign_defaults a doc))\<lparr> slurm_input_rules := ss, param_rules := ps \<rparr>"
  using assms
  by (auto simp: normalizeManifest_def Let_def split: sum.splits)

lemma normalize_hpc:
  assumes "normalizeManifest cat tn ts doc a = Inr m"
  shows "default_hpc m = default_hpc (fill_default_hpc (assign_defaults a doc))"
    and "supported_hpc m = supported_hpc (assign_defaults a doc)"
  using assms by (auto elim!: normalize_cases simp: fill_default_hpc_def)

lemma integer_defaults_filled: "integer_fields_filled (integer_defaults tn v r)"
  by (cases "rmax r"; cases "rmin r"; cases "step r")
     (simp_all add: integer_fields_filled_def integer_defaults_def Let_def truthy_opt_def)

lemma integer_defaults_fills:
  "integer_rule_filled r (integer_defaults tn (Num n) r) n"
  by (cases "rmax r"; cases "rmin r"; cases "step r")
     (simp_all add: integer_rule_filled_def integer_defaults_def Let_def truthy_opt_def mult.commute)

lemma number_le_double:
  "number_le (Num n) (double_number (Num n)) = (0 \<le> n)"
  by (auto simp: MAX_VALUE_def)

lemma integer_defaults_invariant:
  assumes "default_value r = Some (Num n)" "n \<noteq> 0"
  shows "rule_invariant True (integer_defaults tn (Num n) r) = bounds_respected n r"
proof -
  let ?r' = "integer_defaults tn (Num n) r"
  have mx: "js_le (Some (Num n)) (rmax ?r') =
      (if truthy_opt (rmax r) then js_le (Some (Num n)) (rmax r) else 0 \<le> n)"
    using number_le_double [of n]
    by (simp add: integer_defaults_def Let_def js_le_def)
  have mn: "js_le (rmin ?r') (Some (Num n)) =
      (if truthy_opt (rmin r) then js_le (rmin r) (Some (Num n)) else 0 \<le> n)"
    by (simp add: integer_defaults_def Let_def js_le_def)
  have st: "js_positive (step ?r') =
      (if truthy_opt (step r) then js_positive (step r) else True)"
    by (simp add: integer_defaults_def Let_def js_positive_def)
  from assms mx mn st show ?thesis
    by (auto simp: rule_invariant_def bounds_respected_def integer_defaults_fields truthy_opt_def)
qed

lemma string_option_keeps_filled:
  "string_option_defaults ts v r = Inr r' \<Longrightarrow> integer_fields_filled r' = integer_fields_filled r"
  by (simp add: integer_fields_filled_def string_option_defaults_fields)

lemma string_option_keeps_rule_filled:
  "string_option_defaults ts v r1 = Inr r' \<Longrightarrow>
   integer_rule_filled r r' n = integer_rule_filled r r1 n"
  by (simp add: integer_rule_filled_def string_option_defaults_fields)

lemma string_option_keeps_invariant:
  "string_option_defaults ts v r1 = Inr r' \<Longrightarrow> rule_invariant b r' = rule_invariant b r1"
  by (simp add: rule_invariant_def string_option_defaults_fields)

lemma slurm_rule_step_integer_cases:
  assumes "slurm_rule_step cat tn ts k rv = Inr (Some r')"
    and "k \<in> set (slurm_integer_configs cat)" "k \<notin> set (slurm_integer_none_unit_config cat)"
  obtains r v where "rv = Object r" "default_value r = Some v" "truthy v"
    "r' = integer_defaults tn v r \<or> string_option_defaults ts v (integer_defaults tn v r) = Inr r'"
proof -
  from assms(1) obtain r v where rv: "rv = Object r" and v: "default_value r = Some v"
    and t: "truthy v"
    and c: "(k \<in> set (slurm_integer_none_unit_config cat) \<and> r' = r\<lparr> unit := Some ''None'' \<rparr>) \<or>
     (k \<notin> set (slurm_integer_none_unit_config cat) \<and>
      k \<notin> set (slurm_string_option_configs cat) \<and>
      r' = (if k \<in> set (slurm_integer_configs cat) then integer_defaults tn v r else r)) \<or>
     (k \<notin> set (slurm_integer_none_unit_config cat) \<and>
      k \<in> set (slurm_string_option_configs cat) \<and>
      string_option_defaults ts v
        (if k \<in> set (slurm_integer_configs cat) then integer_defaults tn v r else r) = Inr r')"
    by (rule slurm_rule_step_cases)
  from c assms(2,3)
  have "r' = integer_defaults tn v r \<or>
        string_option_defaults ts v (integer_defaults tn v r) = Inr r'" by auto
  with rv v t show thesis using that by blast
qed

lemma slurm_rule_step_default:
  assumes "slurm_rule_step cat tn ts k rv = Inr (Some r')"
  shows "has_default r'"
proof -
  from assms obtain r v where v: "default_value r = Some v" and t: "truthy v"
    and c: "(k \<in> set (slurm_integer_none_unit_config cat) \<and> r' = r\<lparr> unit := Some ''None'' \<rparr>) \<or>
     (k \<notin> set (slurm_integer_none_unit_config cat) \<and>
      k \<notin> set (slurm_string_option_configs cat) \<and>
      r' = (if k \<in> set (slurm_integer_configs cat) then integer_defaults tn v r else r)) \<or>
     (k \<notin> set (slurm_integer_none_unit_config cat) \<and>
      k \<in> set (slurm_string_option_configs cat) \<and>
      string_option_defaults ts v
        (if k \<in> set (slurm_integer_configs cat) then integer_defaults tn v r else r) = Inr r')"
    by (rule slurm_rule_step_cases)
  from c v have "default_value r' = Some v"
    by (auto simp: integer_defaults_fields dest!: string_option_defaults_fields(1) split: if_splits)
  with t show ?thesis by (simp add: has_default_def truthy_opt_def)
qed

lemma slurm_rule_step_fields:
  assumes "slurm_rule_step cat tn ts k rv = Inr (Some r')"
    and "k \<in> set (slurm_integer_configs cat)" "k \<notin> set (slurm_integer_none_unit_config cat)"
  shows "integer_fields_filled r'"
  using assms
  by (cases rule: slurm_rule_step_integer_cases)
     (auto simp: integer_defaults_filled string_option_keeps_filled)

lemma slurm_rule_step_integer:
  assumes "slurm_rule_step cat tn ts k (Object r) = Inr (Some r')"
    and "k \<in> set (slurm_integer_configs cat)" "k \<notin> set (slurm_integer_none_unit_config cat)"
    and "default_value r = Some (Num n)"
  shows "integer_rule_filled r r' n" and "rule_invariant True r' = bounds_respected n r"
proof -
  from assms(1-3) obtain r0 v where rv: "Object r = Object r0"
    and v: "default_value r0 = Some v" and t: "truthy v"
    and c: "r' = integer_defaults tn v r0 \<or>
            string_option_defaults ts v (integer_defaults tn v r0) = Inr r'"
    by (rule slurm_rule_step_integer_cases)
  from rv v assms(4) have r0: "r0 = r" and vn: "v = Num n" by simp_all
  from t vn have n: "n \<noteq> 0" by simp
  from c r0 vn show "integer_rule_filled r r' n"
    by (auto simp: integer_defaults_fills string_option_keeps_rule_filled)
  from c r0 vn integer_defaults_invariant [OF assms(4) n, of tn]
  show "rule_invariant True r' = bounds_respected n r"
    by (auto simp: string_option_keeps_invariant)
qed

lemma param_rule_step_fields:
  assumes "param_rule_step tn ts rv = Inr (Some r')"
  shows "has_default r'"
    and "type r' = Some ''integer'' \<Longrightarrow> integer_fields_filled r'"
proof -
  from assms obtain r v where v: "default_value r = Some v" and t: "truthy v"
    and c: "(type r = Some ''integer'' \<and> r' = integer_defaults tn v r) \<or>
     (type r = Some ''string_option'' \<and> string_option_defaults ts v r = Inr r') \<or>
     (type r = Some ''string_input'' \<and> r' = r)"
    by (rule param_rule_step_cases)
  from c v have "default_value r' = Some v"
    by (auto simp: integer_defaults_fields dest!: string_option_defaults_fields(1))
  with t show "has_default r'" by (simp add: has_default_def truthy_opt_def)
  assume "type r' = Some ''integer''"
  with c show "integer_fields_filled r'"
    by (auto simp: integer_defaults_filled dest!: string_option_defaults_fields(2))
qed

lemma param_rule_step_integer:
  assumes "param_rule_step tn ts (Object r) = Inr (Some r')" "type r = Some ''integer''"
    "default_value r = Some (Num n)"
  shows "integer_rule_filled r r' n" and "rule_invariant True r' = bounds_respected n r"
proof -
  from assms(1) obtain r0 v where rv: "Object r = Object r0"
    and v: "default_value r0 = Some v" and t: "truthy v"
    and c: "(type r0 = Some ''integer'' \<and> r' = integer_defaults tn v r0) \<or>
     (type r0 = Some ''string_option'' \<and> string_option_defaults ts v r0 = Inr r') \<or>
     (type r0 = Some ''string_input'' \<and> r' = r0)"
    by (rule param_rule_step_cases)
  from rv v assms(3) have r0: "r0 = r" and vn: "v = Num n" by simp_all
  from t vn have n: "n \<noteq> 0" by simp
  from c r0 assms(2) vn have r': "r' = integer_defaults tn (Num n) r" by auto
  then show "integer_rule_filled r r' n" by (simp add: integer_defaults_fills)
  from r' integer_defaults_invariant [OF assms(3) n, of tn]
  show "rule_invariant True r' = bounds_respected n r" by simp
qed





lemmas example_defs = example_catalog_def no_number_def no_string_def empty_rule_def
  empty_document_def

lemmas step_defs = slurm_rule_step_def param_rule_step_def integer_defaults_def
  string_option_defaults_def effective_options_def truthy_opt_def Let_def MAX_VALUE_def

lemmas normalize_defs = normalizeManifest_def assigned_slurm_input_rules_def
  assigned_param_rules_def

lemma rules_document_normalized:
  "normalizeManifest example_catalog no_number no_string rules_document ''repo'' =
     Inr ((fill_default_hpc (assign_defaults ''repo'' rules_document))
       \<lparr> slurm_input_rules := [(''walltime'', empty_rule\<lparr> default_value := Some (Num 5),
            rmax := Some (Num 10), rmin := Some (Num 0), step := Some (Num 1) \<rparr>)],
         param_rules := [(''threads'', empty_rule\<lparr> type := Some ''integer'',
            default_value := Some (Num 3),
            rmax := Some (Num 6), rmin := Some (Num 0), step := Some (Num 1) \<rparr>)] \<rparr>)"
  by (simp add: normalize_defs rules_document_def example_defs step_defs)

section \<open>Lemmas about the refresh pipeline\<close>

lemma cache_blind_ret: "cache_blind (ret x)"
  by (simp add: cache_blind_def ret_def)

lemma cache_blind_throw: "cache_blind (throw e)"
  by (simp add: cache_blind_def throw_def)

lemma cache_blind_perform: "cache_blind (perform c f)"
  by (simp add: cache_blind_def perform_def split: prod.splits)

lemma cache_blind_get_now: "cache_blind (get_now env)"
  by (simp add: cache_blind_def get_now_def)

lemma cache_blind_bind:
  assumes "cache_blind m" "\<And>x. cache_blind (f x)"
  shows "cache_blind (bind m f)"
  using assms
  by (auto simp: cache_blind_def bind_def split: prod.splits sum.splits)

lemma cache_blind_try_catch:
  assumes "cache_blind m" "\<And>e. cache_blind (h e)"
  shows "cache_blind (try_catch m h)"
  using assms
  by (auto simp: cache_blind_def try_catch_def split: prod.splits sum.splits)

lemmas do_defs = do_removeZip_def do_existsSync_def do_rimraf_def do_mkdir_def do_clone_def
  do_checkout_def do_pull_def do_fetch_def do_log_def do_readFile_def do_exec_def
  do_update_updatedAt_def

lemmas cache_blind_intros = cache_blind_ret cache_blind_throw cache_blind_perform
  cache_blind_get_now cache_blind_bind cache_blind_try_catch

lemma cache_blind_deleteAndPull: "cache_blind (deleteAndPull env g)"
  by (auto simp: deleteAndPull_def Let_def do_defs intro!: cache_blind_intros split: option.splits)

lemma cache_blind_outOfDate: "cache_blind (outOfDate env g)"
  by (auto simp: outOfDate_def Let_def do_defs intro!: cache_blind_intros
      split: option.splits list.splits)

lemma cache_blind_refreshGit: "cache_blind (refreshGit env g)"
  by (auto simp: refreshGit_def Let_def do_defs
      intro!: cache_blind_intros cache_blind_deleteAndPull cache_blind_outOfDate
      split: option.splits)

lemma cache_blind_process: "cache_blind (process_manifest env raw a)"
  by (auto simp: process_manifest_def intro!: cache_blind_intros split: sum.splits)

lemma cache_blind_getDefaultBranch: "cache_blind (getDefaultBranch env g)"
  by (auto simp: getDefaultBranch_def do_defs intro!: cache_blind_intros split: option.splits)

lemma cache_blind_deleteAndPullManifest: "cache_blind (deleteAndPullManifest env g)"
  by (auto simp: deleteAndPullManifest_def Let_def do_defs
      intro!: cache_blind_intros cache_blind_getDefaultBranch split: option.splits)

lemma cache_blind_keeps:
  assumes "cache_blind act" "act s = (r, s')"
  shows "cache s' = cache s"
proof -
  from assms(1) have "act (s\<lparr> cache := cache s \<rparr>) = (case act s of (r, s') \<Rightarrow> (r, s'\<lparr> cache := cache s \<rparr>))"
    unfolding cache_blind_def by blast
  with assms(2) have "(r, s') = (r, s'\<lparr> cache := cache s \<rparr>)" by simp
  then have "s' = s'\<lparr> cache := cache s \<rparr>" by simp
  then have "cache s' = cache (s'\<lparr> cache := cache s \<rparr>)" by simp
  then show ?thesis by simp
qed

lemmas action_defs = bind_def try_catch_def ret_def throw_def perform_def get_cache_def
  put_cache_def get_now_def

lemma deleteAndPull_calls:
  assumes "deleteAndPull env g s = (Inr u, s')"
  shows "calls s' = calls s @
           [Rimraf (getLocalPath env (git_id g)), Mkdir (getLocalPath env (git_id g)),
            Clone (getLocalPath env (git_id g)) (address g)] @
           (case pinned g of Some ref \<Rightarrow> [Checkout (getLocalPath env (git_id g)) ref]
            | None \<Rightarrow> [])"
  using assms
  by (auto simp: deleteAndPull_def Let_def do_defs action_defs
      split: prod.splits sum.splits option.splits)

lemma deleteAndPullManifest_calls:
  assumes "deleteAndPullManifest env g s = (Inr u, s')"
  shows "\<exists>cs. calls s' = calls s @ cs \<and>
           filter is_rimraf cs = [Rimraf (getLocalManifestPath env (git_id g))] \<and>
           filter is_read cs = []"
  using assms
  by (auto simp: deleteAndPullManifest_def getDefaultBranch_def Let_def do_defs action_defs
      split: prod.splits sum.splits option.splits)

lemma getExecutableManifest_cases:
  assumes "getExecutableManifest env g s = (res, s')"
  obtains (refresh_failed) e where "refreshGit env g s = (Inl e, s')" "res = Inl e"
  | (cached) s1 m where "refreshGit env g s = (Inr False, s1)" "cache s1 (git_id g) = Some m"
      "res = Inr m" "s' = s1"
  | (read) refreshed s1 where "refreshGit env g s = (Inr refreshed, s1)"
      "refreshed \<or> cache s1 (git_id g) = None"
      "bind (try_catch (do_readFile env (path_join (getLocalPath env (git_id g)) ''manifest.json''))
                  (\<lambda>_. bind (deleteAndPull env g) (\<lambda>_.
                        do_readFile env (path_join (getLocalPath env (git_id g)) ''manifest.json''))))
         (\<lambda>raw.
          bind (process_manifest env raw (address g)) (\<lambda>result.
          bind (put_cache (git_id g) result) (\<lambda>_.
          ret result))) s1 = (res, s')"
proof -
  obtain r1 s1 where rf: "refreshGit env g s = (r1, s1)" by (cases "refreshGit env g s")
  show thesis
  proof (cases r1)
    case (Inl e)
    with assms rf have "res = Inl e" "s' = s1"
      by (simp_all add: getExecutableManifest_def Let_def bind_def)
    with rf Inl show ?thesis using refresh_failed by simp
  next
    case (Inr refreshed)
    show ?thesis
    proof (cases "(if \<not> refreshed then cache s1 (git_id g) else None)")
      case None
      with assms rf Inr have "bind (try_catch (do_readFile env (path_join (getLocalPath env (git_id g)) ''manifest.json''))
                  (\<lambda>_. bind (deleteAndPull env g) (\<lambda>_.
                        do_readFile env (path_join (getLocalPath env (git_id g)) ''manifest.json''))))
         (\<lambda>raw.
          bind (process_manifest env raw (address g)) (\<lambda>result.
          bind (put_cache (git_id g) result) (\<lambda>_.
          ret result))) s1 = (res, s')"
        by (simp add: getExecutableManifest_def Let_def bind_def [of "refreshGit env g"]
            bind_def [of get_cache] get_cache_def)
      moreover from None have "refreshed \<or> cache s1 (git_id g) = None" by (auto split: if_splits)
      ultimately show ?thesis using rf Inr read by simp
    next
      case (Some m)
      then have nr: "\<not> refreshed" and c: "cache s1 (git_id g) = Some m" by (auto split: if_splits)
      with assms rf Inr have "res = Inr m" "s' = s1"
        by (simp_all add: getExecutableManifest_def Let_def bind_def [of "refreshGit env g"]
            bind_def [of get_cache] get_cache_def ret_def)
      with rf Inr nr c show ?thesis using cached by simp
    qed
  qed
qed

lemma cache_blind_read_or_recreate: "cache_blind (read_or_recreate env g)"
  by (auto simp: read_or_recreate_def do_defs intro!: cache_blind_intros cache_blind_deleteAndPull)

lemma process_manifest_state: "process_manifest env raw a s = (r, s') \<Longrightarrow> s' = s"
  by (auto simp: process_manifest_def throw_def ret_def split: sum.splits)

lemma store_result_cases:
  assumes "bind (read_or_recreate env g) (\<lambda>raw.
          bind (process_manifest env raw (address g)) (\<lambda>result.
          bind (put_cache (git_id g) result) (\<lambda>_.
          ret result))) s1 = (res, s')"
  obtains (failed) e where "res = Inl e" "cache s' = cache s1"
  | (stored) m where "res = Inr m" "cache s' = (cache s1)(git_id g \<mapsto> m)"
proof -
  obtain rr s2 where rr: "read_or_recreate env g s1 = (rr, s2)"
    by (cases "read_or_recreate env g s1")
  have c2: "cache s2 = cache s1"
    by (rule cache_blind_keeps [OF cache_blind_read_or_recreate rr])
  show thesis
  proof (cases rr)
    case (Inl e)
    with assms rr have "res = Inl e" "s' = s2" by (simp_all add: bind_def)
    with c2 show ?thesis using failed by simp
  next
    case (Inr raw)
    obtain pr s3 where pr: "process_manifest env raw (address g) s2 = (pr, s3)"
      by (cases "process_manifest env raw (address g) s2")
    then have s3: "s3 = s2" by (rule process_manifest_state)
    show ?thesis
    proof (cases pr)
      case (Inl e)
      with assms rr Inr pr s3 have "res = Inl e" "s' = s2" by (simp_all add: bind_def)
      with c2 show ?thesis using failed by simp
    next
      case inr: (Inr m)
      with assms rr Inr pr s3 have "res = Inr m" "s' = s2\<lparr> cache := (cache s2)(git_id g \<mapsto> m) \<rparr>"
        by (simp_all add: bind_def put_cache_def ret_def)
      with c2 show ?thesis using stored by simp
    qed
  qed
qed

lemma returned_manifest_cached:
  assumes "getExecutableManifest env g s = (Inr m, s')"
  shows "cache s' (git_id g) = Some m"
  using assms
proof (cases rule: getExecutableManifest_cases)
  case (refresh_failed e')
  then show ?thesis by simp
next
  case (cached s1 m')
  then show ?thesis by simp
next
  case (read refreshed s1)
  from read(3) show ?thesis
    unfolding read_or_recreate_def [symmetric]
  proof (cases rule: store_result_cases)
    case (failed e')
    then show ?thesis by simp
  next
    case (stored m')
    then show ?thesis by simp
  qed
qed

lemma refreshed_ignores_cache:
  assumes "refreshGit env g s = (Inr True, t)"
  shows "fst (getExecutableManifest env g (s\<lparr> cache := c \<rparr>)) = fst (getExecutableManifest env g s)"
proof -
  let ?B = "\<lambda>raw. bind (process_manifest env raw (address g)) (\<lambda>result.
          bind (put_cache (git_id g) result) (\<lambda>_. ret result))"
  from cache_blind_refreshGit [of env g] assms
  have r': "refreshGit env g (s\<lparr> cache := c \<rparr>) = (Inr True, t\<lparr> cache := c \<rparr>)"
    unfolding cache_blind_def by simp
  have g1: "getExecutableManifest env g s = bind (read_or_recreate env g) ?B t"
    using assms
    by (simp add: getExecutableManifest_def Let_def read_or_recreate_def
        bind_def [of "refreshGit env g"] bind_def [of get_cache] get_cache_def)
  have g2: "getExecutableManifest env g (s\<lparr> cache := c \<rparr>) =
            bind (read_or_recreate env g) ?B (t\<lparr> cache := c \<rparr>)"
    using r'
    by (simp add: getExecutableManifest_def Let_def read_or_recreate_def
        bind_def [of "refreshGit env g"] bind_def [of get_cache] get_cache_def)
  obtain rr s2 where rr: "read_or_recreate env g t = (rr, s2)"
    by (cases "read_or_recreate env g t")
  with cache_blind_read_or_recreate [of env g]
  have rr': "read_or_recreate env g (t\<lparr> cache := c \<rparr>) = (rr, s2\<lparr> cache := c \<rparr>)"
    unfolding cache_blind_def by simp
  have "fst (bind (read_or_recreate env g) ?B (t\<lparr> cache := c \<rparr>)) =
        fst (bind (read_or_recreate env g) ?B t)"
    using rr rr'
    by (cases rr)
       (auto simp: bind_def process_manifest_def put_cache_def ret_def throw_def split: sum.splits)
  with g1 g2 show ?thesis by simp
qed

lemma deleteAndPull_failed_calls:
  assumes "deleteAndPull env g s = (Inl e, s')"
  shows "\<exists>n. 0 < n \<and> calls s' = calls s @ take n (recreate_calls env g)"
proof -
  let ?lp = "getLocalPath env (git_id g)"
  obtain r1 t1 where a: "do_rimraf env ?lp s = (r1, t1)" by (cases "do_rimraf env ?lp s")
  then have c1: "calls t1 = calls s @ [Rimraf ?lp]"
    by (auto simp: do_defs perform_def split: prod.splits)
  show ?thesis
  proof (cases r1)
    case (Inl e1)
    with assms a have "s' = t1" by (simp add: deleteAndPull_def Let_def bind_def)
    with c1 have "calls s' = calls s @ take 1 (recreate_calls env g)"
      by (simp add: recreate_calls_def)
    then show ?thesis by (intro exI [of _ 1]) simp
  next
    case (Inr u1)
    obtain r2 t2 where b: "do_mkdir env ?lp t1 = (r2, t2)" by (cases "do_mkdir env ?lp t1")
    then have c2: "calls t2 = calls t1 @ [Mkdir ?lp]"
      by (auto simp: do_defs perform_def split: prod.splits)
    show ?thesis
    proof (cases r2)
      case (Inl e2)
      with assms a Inr b have "s' = t2" by (simp add: deleteAndPull_def Let_def bind_def)
      with c1 c2 have "calls s' = calls s @ take 2 (recreate_calls env g)"
        by (simp add: recreate_calls_def)
      then show ?thesis by (intro exI [of _ 2]) simp
    next
      case r2: (Inr u2)
      obtain r3 t3 where c: "do_clone env ?lp (address g) t2 = (r3, t3)"
        by (cases "do_clone env ?lp (address g) t2")
      then have c3: "calls t3 = calls t2 @ [Clone ?lp (address g)]"
        by (auto simp: do_defs perform_def split: prod.splits)
      show ?thesis
      proof (cases r3)
        case (Inl e3)
        with assms a Inr b r2 c have "s' = t3" by (simp add: deleteAndPull_def Let_def bind_def)
        with c1 c2 c3 have "calls s' = calls s @ take 3 (recreate_calls env g)"
          by (simp add: recreate_calls_def)
        then show ?thesis by (intro exI [of _ 3]) simp
      next
        case r3: (Inr u3)
        from assms a Inr b r2 c r3 obtain ref where p: "pinned g = Some ref"
          and d: "do_checkout env ?lp ref t3 = (Inl e, s')"
          by (cases "pinned g") (simp_all add: deleteAndPull_def Let_def bind_def ret_def)
        from d have "calls s' = calls t3 @ [Checkout ?lp ref]"
          by (auto simp: do_defs perform_def split: prod.splits)
        with c1 c2 c3 p have "calls s' = calls s @ take 4 (recreate_calls env g)"
          by (simp add: recreate_calls_def)
        then show ?thesis by (intro exI [of _ 4]) simp
      qed
    qed
  qed
qed

lemma deleteAndPull_done_calls:
  assumes "deleteAndPull env g s = (Inr u, s')"
  shows "calls s' = calls s @ recreate_calls env g"
  using deleteAndPull_calls [OF assms] by (simp add: recreate_calls_def)

lemma getDefaultBranch_calls:
  assumes "getDefaultBranch env g s = (r, s')"
  shows "calls s' = calls s @ [Fetch (getLocalPath env (git_id g)) (address g)]"
  using assms
  by (auto simp: getDefaultBranch_def do_defs action_defs split: prod.splits sum.splits option.splits)

lemma deleteAndPullManifest_run_calls:
  assumes "deleteAndPullManifest env g s = (r, s')"
  shows "\<exists>b. (case r of
            Inr u \<Rightarrow> calls s' = calls s @ recreate_manifest_calls env g b
          | Inl e \<Rightarrow> (\<exists>n. 0 < n \<and> calls s' = calls s @ take n (recreate_manifest_calls env g b)))"
proof -
  let ?mp = "getLocalManifestPath env (git_id g)"
  have failed: "\<exists>b. (case r of
            Inr u \<Rightarrow> calls s' = calls s @ recreate_manifest_calls env g b
          | Inl e \<Rightarrow> (\<exists>n. 0 < n \<and> calls s' = calls s @ take n (recreate_manifest_calls env g b)))"
    if "r = Inl e" "0 < n" "calls s' = calls s @ take n (recreate_manifest_calls env g b)"
    for e n b
    using that by auto
  have completed: "\<exists>b. (case r of
            Inr u \<Rightarrow> calls s' = calls s @ recreate_manifest_calls env g b
          | Inl e \<Rightarrow> (\<exists>n. 0 < n \<and> calls s' = calls s @ take n (recreate_manifest_calls env g b)))"
    if "r = Inr u" "calls s' = calls s @ recreate_manifest_calls env g b" for u b
    using that by auto
  obtain r1 t1 where a: "do_rimraf env ?mp s = (r1, t1)" by (cases "do_rimraf env ?mp s")
  then have c1: "calls t1 = calls s @ [Rimraf ?mp]"
    by (auto simp: do_defs perform_def split: prod.splits)
  show ?thesis
  proof (cases r1)
    case (Inl e1)
    with assms a have "s' = t1" "r = Inl e1"
      by (simp_all add: deleteAndPullManifest_def Let_def bind_def)
    with c1 have "r = Inl e1" "calls s' = calls s @ take 1 (recreate_manifest_calls env g [])"
      by (simp_all add: recreate_manifest_calls_def)
    then show ?thesis by (intro failed [of e1 1]) simp_all
  next
    case (Inr u1)
    obtain r2 t2 where b: "do_mkdir env ?mp t1 = (r2, t2)" by (cases "do_mkdir env ?mp t1")
    then have c2: "calls t2 = calls t1 @ [Mkdir ?mp]"
      by (auto simp: do_defs perform_def split: prod.splits)
    show ?thesis
    proof (cases r2)
      case (Inl e2)
      with assms a Inr b have "s' = t2" "r = Inl e2"
        by (simp_all add: deleteAndPullManifest_def Let_def bind_def)
      with c1 c2 have "r = Inl e2"
          "calls s' = calls s @ take 2 (recreate_manifest_calls env g [])"
        by (simp_all add: recreate_manifest_calls_def)
      then show ?thesis by (intro failed [of e2 2]) simp_all
    next
      case r2: (Inr u2)
      show ?thesis
      proof (cases "pinned g")
        case (Some ref)
        with assms a Inr b r2
        have d: "do_exec env (wget_manifest ?mp (getManifestUrl g ref)) t2 = (r, s')"
          by (simp add: deleteAndPullManifest_def Let_def bind_def)
        then have "calls s' = calls t2 @ [Exec (wget_manifest ?mp (getManifestUrl g ref))]"
          by (auto simp: do_defs perform_def split: prod.splits)
        with c1 c2 Some have full: "calls s' = calls s @ recreate_manifest_calls env g []"
          by (simp add: recreate_manifest_calls_def)
        show ?thesis
        proof (cases r)
          case (Inl e3)
          from full have "calls s' = calls s @ take 3 (recreate_manifest_calls env g [])"
            using Some by (simp add: recreate_manifest_calls_def)
          with Inl show ?thesis by (intro failed [of e3 3]) simp_all
        next
          case r3: (Inr u3)
          with full show ?thesis by (intro completed) simp_all
        qed
      next
        case None
        obtain r3 t3 where c: "getDefaultBranch env g t2 = (r3, t3)"
          by (cases "getDefaultBranch env g t2")
        from getDefaultBranch_calls [OF c]
        have c3: "calls t3 = calls t2 @ [Fetch (getLocalPath env (git_id g)) (address g)]" .
        show ?thesis
        proof (cases r3)
          case (Inl e3)
          with assms a Inr b r2 None c have "s' = t3" "r = Inl e3"
            by (simp_all add: deleteAndPullManifest_def Let_def bind_def)
          with c1 c2 c3 None have "r = Inl e3"
              "calls s' = calls s @ take 3 (recreate_manifest_calls env g [])"
            by (simp_all add: recreate_manifest_calls_def)
          then show ?thesis by (intro failed [of e3 3]) simp_all
        next
          case r3: (Inr branch)
          with assms a Inr b r2 None c
          have d: "do_exec env (wget_manifest ?mp (getManifestUrl g branch)) t3 = (r, s')"
            by (simp add: deleteAndPullManifest_def Let_def bind_def)
          then have "calls s' = calls t3 @ [Exec (wget_manifest ?mp (getManifestUrl g branch))]"
            by (auto simp: do_defs perform_def split: prod.splits)
          with c1 c2 c3 None have full: "calls s' = calls s @ recreate_manifest_calls env g branch"
            by (simp add: recreate_manifest_calls_def)
          show ?thesis
          proof (cases r)
            case (Inl e4)
            from full have "calls s' = calls s @ take 4 (recreate_manifest_calls env g branch)"
              using None by (simp add: recreate_manifest_calls_def)
            with Inl show ?thesis by (intro failed [of e4 4]) simp_all
          next
            case r4: (Inr u4)
            with full show ?thesis by (intro completed) simp_all
          qed
        qed
      qed
    qed
  qed
qed

lemma do_readFile_calls:
  assumes "do_readFile env p s = (r, s')"
  shows "calls s' = calls s @ [ReadFile p]" and "cache s' = cache s"
  using assms by (auto simp: do_readFile_def perform_def split: prod.splits)

lemma store_outcome:
  "bind (process_manifest env raw (address g)) (\<lambda>result.
     bind (put_cache (git_id g) result) (\<lambda>_. ret result)) s = outcome_cached env g (Inr raw) s"
  by (simp add: outcome_cached_def process_manifest_def bind_def put_cache_def ret_def throw_def
      split: sum.splits)

lemma plain_outcome:
  "process_manifest env raw (address g) s = outcome_plain env g (Inr raw) s"
  by (simp add: outcome_plain_def process_manifest_def ret_def throw_def split: sum.splits)

lemma git_read_recovered:
  assumes rf: "refreshGit env g s = (Inr refreshed, s1)"
    and miss: "refreshed \<or> cache s1 (git_id g) = None"
    and r1: "do_readFile env (path_join (getLocalPath env (git_id g)) ''manifest.json'') s1 = (Inl e1, s2)"
    and dp: "deleteAndPull env g s2 = (Inr (), s3)"
    and r2: "do_readFile env (path_join (getLocalPath env (git_id g)) ''manifest.json'') s3 = (r, s4)"
  shows "getExecutableManifest env g s = outcome_cached env g r s4 \<and>
         calls s4 = calls s1 @
           [ReadFile (path_join (getLocalPath env (git_id g)) ''manifest.json'')] @
           recreate_calls env g @
           [ReadFile (path_join (getLocalPath env (git_id g)) ''manifest.json'')] \<and>
         cache s4 = cache s"
proof -
  let ?mf = "path_join (getLocalPath env (git_id g)) ''manifest.json''"
  from miss have look: "(if \<not> refreshed then cache s1 (git_id g) else None) = None" by auto
  have run: "getExecutableManifest env g s = outcome_cached env g r s4"
  proof (cases r)
    case (Inl e2)
    with rf look r1 dp r2 show ?thesis
      by (simp add: getExecutableManifest_def Let_def bind_def try_catch_def get_cache_def
          outcome_cached_def)
  next
    case (Inr raw)
    with rf look r1 dp r2 have "getExecutableManifest env g s =
        bind (process_manifest env raw (address g)) (\<lambda>result.
          bind (put_cache (git_id g) result) (\<lambda>_. ret result)) s4"
      by (simp add: getExecutableManifest_def Let_def bind_def [of "refreshGit env g"]
          bind_def [of get_cache] bind_def [of "try_catch _ _"] bind_def [of "deleteAndPull env g"]
          try_catch_def get_cache_def)
    with Inr show ?thesis by (simp add: store_outcome)
  qed
  have c2: "calls s2 = calls s1 @ [ReadFile ?mf]" by (rule do_readFile_calls(1) [OF r1])
  have c4: "calls s4 = calls s3 @ [ReadFile ?mf]" by (rule do_readFile_calls(1) [OF r2])
  note c3 = deleteAndPull_done_calls [OF dp]
  have k: "cache s4 = cache s"
    using cache_blind_keeps [OF cache_blind_refreshGit rf]
      do_readFile_calls(2) [OF r1] cache_blind_keeps [OF cache_blind_deleteAndPull dp]
      do_readFile_calls(2) [OF r2] by simp
  from run c2 c3 c4 k show ?thesis by simp
qed

lemma git_recreate_failed:
  assumes rf: "refreshGit env g s = (Inr refreshed, s1)"
    and miss: "refreshed \<or> cache s1 (git_id g) = None"
    and r1: "do_readFile env (path_join (getLocalPath env (git_id g)) ''manifest.json'') s1 = (Inl e1, s2)"
    and dp: "deleteAndPull env g s2 = (Inl e, s3)"
  shows "getExecutableManifest env g s = (Inl e, s3) \<and>
         (\<exists>n. 0 < n \<and> calls s3 = calls s1 @
            ReadFile (path_join (getLocalPath env (git_id g)) ''manifest.json'') #
            take n (recreate_calls env g)) \<and>
         cache s3 = cache s"
proof -
  let ?mf = "path_join (getLocalPath env (git_id g)) ''manifest.json''"
  from miss have look: "(if \<not> refreshed then cache s1 (git_id g) else None) = None" by auto
  have run: "getExecutableManifest env g s = (Inl e, s3)"
    using rf look r1 dp
    by (simp add: getExecutableManifest_def Let_def bind_def try_catch_def get_cache_def)
  have c2: "calls s2 = calls s1 @ [ReadFile ?mf]" by (rule do_readFile_calls(1) [OF r1])
  from deleteAndPull_failed_calls [OF dp] obtain n where n: "0 < n"
    and c3: "calls s3 = calls s2 @ take n (recreate_calls env g)" by blast
  have k: "cache s3 = cache s"
    using cache_blind_keeps [OF cache_blind_refreshGit rf]
      do_readFile_calls(2) [OF r1] cache_blind_keeps [OF cache_blind_deleteAndPull dp] by simp
  from c2 c3 n have "\<exists>n. 0 < n \<and> calls s3 = calls s1 @ ReadFile ?mf # take n (recreate_calls env g)"
    by auto
  with run k show ?thesis by simp
qed

lemma manifest_read_recovered:
  assumes rf: "refreshGitManifest env g s = (Inr (), s1)"
    and r1: "do_readFile env (path_join (getLocalManifestPath env (git_id g)) ''manifest.json'') s1 = (Inl e1, s2)"
    and dp: "deleteAndPullManifest env g s2 = (Inr (), s3)"
    and r2: "do_readFile env (path_join (getLocalManifestPath env (git_id g)) ''manifest.json'') s3 = (r, s4)"
  shows "ManifestUtil_getExecutableManifest env g s = outcome_plain env g r s4 \<and>
         (\<exists>b. calls s4 = calls s1 @
           [ReadFile (path_join (getLocalManifestPath env (git_id g)) ''manifest.json'')] @
           recreate_manifest_calls env g b @
           [ReadFile (path_join (getLocalManifestPath env (git_id g)) ''manifest.json'')])"
proof -
  let ?mf = "path_join (getLocalManifestPath env (git_id g)) ''manifest.json''"
  have run: "ManifestUtil_getExecutableManifest env g s = outcome_plain env g r s4"
  proof (cases r)
    case (Inl e2)
    with rf r1 dp r2 show ?thesis
      by (simp add: ManifestUtil_getExecutableManifest_def Let_def bind_def try_catch_def
          outcome_plain_def)
  next
    case (Inr raw)
    with rf r1 dp r2 have "ManifestUtil_getExecutableManifest env g s =
        process_manifest env raw (address g) s4"
      by (simp add: ManifestUtil_getExecutableManifest_def Let_def bind_def try_catch_def)
    with Inr show ?thesis by (simp add: plain_outcome)
  qed
  have c2: "calls s2 = calls s1 @ [ReadFile ?mf]" by (rule do_readFile_calls(1) [OF r1])
  have c4: "calls s4 = calls s3 @ [ReadFile ?mf]" by (rule do_readFile_calls(1) [OF r2])
  from deleteAndPullManifest_run_calls [OF dp] obtain b where
    c3: "calls s3 = calls s2 @ recreate_manifest_calls env g b" by auto
  from c2 c3 c4 have "calls s4 = calls s1 @ [ReadFile ?mf] @ recreate_manifest_calls env g b @
      [ReadFile ?mf]" by simp
  with run show ?thesis by blast
qed

lemma manifest_recreate_failed:
  assumes rf: "refreshGitManifest env g s = (Inr (), s1)"
    and r1: "do_readFile env (path_join (getLocalManifestPath env (git_id g)) ''manifest.json'') s1 = (Inl e1, s2)"
    and dp: "deleteAndPullManifest env g s2 = (Inl e, s3)"
  shows "ManifestUtil_getExecutableManifest env g s = (Inl e, s3) \<and>
         (\<exists>b n. 0 < n \<and> calls s3 = calls s1 @
            ReadFile (path_join (getLocalManifestPath env (git_id g)) ''manifest.json'') #
            take n (recreate_manifest_calls env g b))"
proof -
  let ?mf = "path_join (getLocalManifestPath env (git_id g)) ''manifest.json''"
  have run: "ManifestUtil_getExecutableManifest env g s = (Inl e, s3)"
    using rf r1 dp
    by (simp add: ManifestUtil_getExecutableManifest_def Let_def bind_def try_catch_def)
  have c2: "calls s2 = calls s1 @ [ReadFile ?mf]" by (rule do_readFile_calls(1) [OF r1])
  from deleteAndPullManifest_run_calls [OF dp] obtain b n where "0 < n"
    and "calls s3 = calls s2 @ take n (recreate_manifest_calls env g b)" by auto
  with c2 have "\<exists>b n. 0 < n \<and> calls s3 = calls s1 @ ReadFile ?mf #
      take n (recreate_manifest_calls env g b)" by auto
  with run show ?thesis by simp
qed

lemma refreshGitManifest_fresh:
  assumes "existsSync env (getLocalManifestPath env (git_id g)) (world s)"
    and "\<not> 120 < secsSinceUpdate (now env (world s)) (updatedAt g)"
  shows "manifest_found_fresh env g s"
  using assms
  by (simp add: manifest_found_fresh_def refreshGitManifest_def Let_def do_defs action_defs)

lemma refreshGitManifest_stale:
  assumes "existsSync env (getLocalManifestPath env (git_id g)) (world s)"
    and "120 < secsSinceUpdate (now env (world s)) (updatedAt g)"
  shows "manifest_found_stale env g s"
  using assms
  by (auto simp: manifest_found_stale_def refreshGitManifest_def deleteAndPullManifest_def
      getDefaultBranch_def Let_def do_defs action_defs calls_since_def
      split: prod.splits sum.splits option.splits)

lemma fresh_not_stale: "\<not> (manifest_found_fresh env g s \<and> manifest_found_stale env g s)"
  by (auto simp: manifest_found_fresh_def manifest_found_stale_def calls_since_def)

lemma secsSinceUpdate_stale:
  "(120 < secsSinceUpdate t (Date d)) = (120 * 1000 < t - d)"
  "120 < secsSinceUpdate t Null"
  "0 \<le> t \<Longrightarrow> 120 < secsSinceUpdate t Undefined"
proof -
  have "(120 < (of_int t - of_int d) / (1000::rat)) = ((120000::rat) < of_int (t - d))"
    by (simp add: less_divide_eq)
  also have "\<dots> = (120 * 1000 < t - d)"
    using of_int_less_iff [where 'a = rat, of 120000 "t - d"] by simp
  finally show "(120 < secsSinceUpdate t (Date d)) = (120 * 1000 < t - d)"
    by (simp add: secsSinceUpdate_def)
  show "120 < secsSinceUpdate t Null" by (simp add: secsSinceUpdate_def)
  assume "0 \<le> t"
  then have "(0::rat) \<le> of_int t" by simp
  then show "120 < secsSinceUpdate t Undefined"
    by (simp add: secsSinceUpdate_def less_divide_eq)
qed

lemmas sim_defs = sim_env_def refusing_env_def demo_def demo_pinned_def missing_mirror_def
  synced_mirror_def unreadable_mirror_def
  pinned_def getLocalPath_def getLocalManifestPath_def path_join_def

lemmas run_defs = do_defs action_defs deleteAndPull_def outOfDate_def refreshGit_def
  getExecutableManifest_def process_manifest_def processExecutableManifest_def Let_def

lemmas manifest_run_defs = refreshGitManifest_def deleteAndPullManifest_def
  getDefaultBranch_def ManifestUtil_getExecutableManifest_def secsSinceUpdate_def
  wget_manifest_def getManifestUrl_def

lemma default_manifest_normalized:
  "normalizeManifest cat tn ts empty_document addr = Inr (default_manifest addr)"
  by (simp add: normalizeManifest_def assigned_slurm_input_rules_def assigned_param_rules_def
      default_manifest_def empty_document_def fill_default_hpc_def assign_defaults_def)

lemma null_rule_rejected:
  "normalizeManifest cat tn ts null_rule_document addr = Inl TypeError"
  by (simp add: normalizeManifest_def assigned_slurm_input_rules_def assigned_param_rules_def
      null_rule_document_def empty_document_def param_rule_step_def)

lemma sim_pinned_outOfDate:
  "outOfDate sim_env demo_pinned (synced_mirror (Some ''{}'')) =
     (Inr True, (synced_mirror (Some ''{}''))
        \<lparr> calls := [Fetch ''/data/demo'' ''https://github.com/org/demo.git'', Log ''/data/demo''] \<rparr>)"
  by (simp add: sim_defs run_defs)

lemma sim_missing_refresh:
  "refreshGit sim_env demo (missing_mirror (Some ''{}'')) =
     (Inr True, (synced_mirror (Some ''{}''))
        \<lparr> calls := [RemoveZip ''/data/demo'', ExistsSync ''/data/demo'', Rimraf ''/data/demo'',
                     Mkdir ''/data/demo'', Clone ''/data/demo'' ''https://github.com/org/demo.git''] \<rparr>)"
  by (simp add: sim_defs run_defs)

lemma sim_first_call:
  "getExecutableManifest sim_env demo (missing_mirror (Some ''{}'')) =
     (Inr (default_manifest ''https://github.com/org/demo.git''),
      (synced_mirror (Some ''{}''))
        \<lparr> cache := [''demo'' \<mapsto> default_manifest ''https://github.com/org/demo.git''],
          calls := [RemoveZip ''/data/demo'', ExistsSync ''/data/demo'', Rimraf ''/data/demo'',
                     Mkdir ''/data/demo'', Clone ''/data/demo'' ''https://github.com/org/demo.git'',
                     ReadFile ''/data/demo/manifest.json''] \<rparr>)"
  by (simp add: sim_defs run_defs default_manifest_normalized)

lemma sim_parse_failure:
  "getExecutableManifest sim_env demo ((missing_mirror (Some ''not json''))\<lparr> cache := [''demo'' \<mapsto> m] \<rparr>) =
     (Inl SyntaxError,
      (synced_mirror (Some ''not json''))
        \<lparr> cache := [''demo'' \<mapsto> m],
          calls := [RemoveZip ''/data/demo'', ExistsSync ''/data/demo'', Rimraf ''/data/demo'',
                     Mkdir ''/data/demo'', Clone ''/data/demo'' ''https://github.com/org/demo.git'',
                     ReadFile ''/data/demo/manifest.json''] \<rparr>)"
  by (simp add: sim_defs run_defs)

lemma sim_normalize_failure:
  "getExecutableManifest sim_env demo
     ((missing_mirror (Some ''{\"param_rules\": {\"threads\": null}}''))\<lparr> cache := [''demo'' \<mapsto> m] \<rparr>) =
     (Inl TypeError,
      (synced_mirror (Some ''{\"param_rules\": {\"threads\": null}}''))
        \<lparr> cache := [''demo'' \<mapsto> m],
          calls := [RemoveZip ''/data/demo'', ExistsSync ''/data/demo'', Rimraf ''/data/demo'',
                     Mkdir ''/data/demo'', Clone ''/data/demo'' ''https://github.com/org/demo.git'',
                     ReadFile ''/data/demo/manifest.json''] \<rparr>)"
  by (simp add: sim_defs run_defs null_rule_rejected)

lemma git_second_read_fails:
  "getExecutableManifest sim_env demo (synced_mirror None) =
     (Inl (External ''ENOENT''),
      (synced_mirror None)
        \<lparr> calls := [RemoveZip ''/data/demo'', ExistsSync ''/data/demo'',
                     Fetch ''/data/demo'' ''https://github.com/org/demo.git'', Log ''/data/demo'',
                     ReadFile ''/data/demo/manifest.json'',
                     Rimraf ''/data/demo'', Mkdir ''/data/demo'',
                     Clone ''/data/demo'' ''https://github.com/org/demo.git'',
                     ReadFile ''/data/demo/manifest.json''] \<rparr>)"
  by (simp add: sim_defs run_defs)

lemma git_clone_refused:
  "getExecutableManifest refusing_env demo (unreadable_mirror ''{}'') =
     (Inl (External ''clone refused''),
      (unreadable_mirror ''{}'')
        \<lparr> world := (world (unreadable_mirror ''{}''))\<lparr> local_head := None \<rparr>,
          calls := [RemoveZip ''/data/demo'', ExistsSync ''/data/demo'',
                     Fetch ''/data/demo'' ''https://github.com/org/demo.git'', Log ''/data/demo'',
                     ReadFile ''/data/demo/manifest.json'',
                     Rimraf ''/data/demo'', Mkdir ''/data/demo'',
                     Clone ''/data/demo'' ''https://github.com/org/demo.git''] \<rparr>)"
  by (simp add: sim_defs run_defs)

lemma manifest_retry_succeeds:
  "ManifestUtil_getExecutableManifest sim_env demo (unreadable_mirror ''{}'') =
     (Inr (default_manifest ''https://github.com/org/demo.git''),
      (unreadable_mirror ''{}'')
        \<lparr> world := (world (unreadable_mirror ''{}''))
                      \<lparr> local_head := None, local_manifest := Some ''{}'' \<rparr>,
          calls := [ExistsSync ''/data/manifests/demo'',
             ReadFile ''/data/manifests/demo/manifest.json'',
             Rimraf ''/data/manifests/demo'', Mkdir ''/data/manifests/demo'',
             Fetch ''/data/demo'' ''https://github.com/org/demo.git'',
             Exec (''cd /data/manifests/demo && wget -O manifest.json '' @
                   ''https://raw.githubusercontent.com/org/demo/main/manifest.json''),
             ReadFile ''/data/manifests/demo/manifest.json''] \<rparr>)"
  by (simp add: sim_defs run_defs manifest_run_defs default_manifest_normalized)

lemma manifest_download_refused:
  "ManifestUtil_getExecutableManifest refusing_env demo (unreadable_mirror ''{}'') =
     (Inl (External ''download refused''),
      (unreadable_mirror ''{}'')
        \<lparr> world := (world (unreadable_mirror ''{}''))\<lparr> local_head := None \<rparr>,
          calls := [ExistsSync ''/data/manifests/demo'',
             ReadFile ''/data/manifests/demo/manifest.json'',
             Rimraf ''/data/manifests/demo'', Mkdir ''/data/manifests/demo'',
             Fetch ''/data/demo'' ''https://github.com/org/demo.git'',
             Exec (''cd /data/manifests/demo && wget -O manifest.json '' @
                   ''https://raw.githubusercontent.com/org/demo/main/manifest.json'')] \<rparr>)"
  by (simp add: sim_defs run_defs manifest_run_defs)

lemma sim_read_absent:
  "local_manifest (world s) = None \<Longrightarrow>
   do_readFile sim_env p s = (Inl (External ''ENOENT''), s\<lparr> calls := calls s @ [ReadFile p] \<rparr>)"
  "local_manifest (world s) = None \<Longrightarrow>
   do_readFile refusing_env p s = (Inl (External ''ENOENT''), s\<lparr> calls := calls s @ [ReadFile p] \<rparr>)"
  by (simp_all add: sim_defs run_defs)

section \<open>Claims about the validator\<close>

text \<open>
  C2 (as amended). For a document that the validator accepts: every rule that survives, in
  either mapping, has a truthy (non-empty) default value; every integer rule that reaches
  the defaulting step (a cluster-resource rule whose name is an integer name outside the
  unitless category, a parameter rule of type \<^verbatim>\<open>integer\<close>) has \<^verbatim>\<open>max\<close> and \<^verbatim>\<open>min\<close> defined and
  a truthy step; and such a rule with a numeric default \<open>n\<close> has \<open>min \<le> n \<le> max\<close> and a
  positive step in the output exactly when the document's own rule respects these bounds
  (\<open>bounds_respected\<close>): each of \<^verbatim>\<open>max\<close>, \<^verbatim>\<open>min\<close> and \<^verbatim>\<open>step\<close> that the document gives with a
  truthy value is on the right side of the default, respectively positive, and the
  default is not negative where the validator fills \<^verbatim>\<open>max\<close> or \<^verbatim>\<open>min\<close>. In particular a rule
  with a positive default whose bounds and step are all filled by the validator satisfies
  the invariant. The validator fills bounds; it does not check the ones it is given.
\<close>

theorem surviving_rule_fields:
  assumes m: "normalizeManifest cat tn ts doc addr = Inr m"
  shows "(\<forall>(k, r) \<in> set (slurm_input_rules m).
            has_default r \<and>
            (k \<in> set (slurm_integer_configs cat) \<and> k \<notin> set (slurm_integer_none_unit_config cat)
               \<longrightarrow> integer_fields_filled r)) \<and>
         (\<forall>(k, r) \<in> set (param_rules m).
            has_default r \<and> (type r = Some ''integer'' \<longrightarrow> integer_fields_filled r)) \<and>
         (distinct (map fst (assigned_param_rules doc)) \<and>
          map_of (assigned_param_rules doc) k = Some (Object r) \<and>
          map_of (param_rules m) k = Some r' \<and>
          type r = Some ''integer'' \<and> default_value r = Some (Num n)
            \<longrightarrow> rule_invariant True r' = bounds_respected n r) \<and>
         (distinct (map fst (assigned_slurm_input_rules doc)) \<and>
          map_of (assigned_slurm_input_rules doc) j = Some (Object q) \<and>
          map_of (slurm_input_rules m) j = Some q' \<and>
          j \<in> set (slurm_integer_configs cat) \<and> j \<notin> set (slurm_integer_none_unit_config cat) \<and>
          default_value q = Some (Num i)
            \<longrightarrow> rule_invariant True q' = bounds_respected i q)"
proof -
  from m obtain ss ps where
    ss: "for_in (slurm_rule_step cat tn ts) (assigned_slurm_input_rules doc) = Inr ss"
    and ps: "for_in (\<lambda>k. param_rule_step tn ts) (assigned_param_rules doc) = Inr ps"
    and me: "m = (fill_default_hpc (assign_defaults addr doc))
                   \<lparr> slurm_input_rules := ss, param_rules := ps \<rparr>"
    by (rule normalize_cases)
  from me have sm: "slurm_input_rules m = ss" and pm: "param_rules m = ps" by simp_all
  have a: "\<forall>(k, r) \<in> set (slurm_input_rules m).
            has_default r \<and>
            (k \<in> set (slurm_integer_configs cat) \<and> k \<notin> set (slurm_integer_none_unit_config cat)
               \<longrightarrow> integer_fields_filled r)"
  proof (intro ballI)
    fix e assume e: "e \<in> set (slurm_input_rules m)"
    obtain k r' where kr: "e = (k, r')" by (cases e)
    from for_in_mem [OF ss] e kr sm obtain rv where
      "slurm_rule_step cat tn ts k rv = Inr (Some r')" by auto
    then show "case e of (k, r) \<Rightarrow> has_default r \<and>
            (k \<in> set (slurm_integer_configs cat) \<and> k \<notin> set (slurm_integer_none_unit_config cat)
               \<longrightarrow> integer_fields_filled r)"
      using kr slurm_rule_step_default slurm_rule_step_fields by auto
  qed
  have b: "\<forall>(k, r) \<in> set (param_rules m).
            has_default r \<and> (type r = Some ''integer'' \<longrightarrow> integer_fields_filled r)"
  proof (intro ballI)
    fix e assume e: "e \<in> set (param_rules m)"
    obtain k r' where kr: "e = (k, r')" by (cases e)
    from for_in_mem [OF ps] e kr pm obtain rv where
      "param_rule_step tn ts rv = Inr (Some r')" by auto
    then show "case e of (k, r) \<Rightarrow>
            has_default r \<and> (type r = Some ''integer'' \<longrightarrow> integer_fields_filled r)"
      using kr param_rule_step_fields by auto
  qed
  have c: "distinct (map fst (assigned_param_rules doc)) \<and>
          map_of (assigned_param_rules doc) k = Some (Object r) \<and>
          map_of (param_rules m) k = Some r' \<and>
          type r = Some ''integer'' \<and> default_value r = Some (Num n)
            \<longrightarrow> rule_invariant True r' = bounds_respected n r"
  proof (intro impI, elim conjE)
    assume d: "distinct (map fst (assigned_param_rules doc))"
      and i: "map_of (assigned_param_rules doc) k = Some (Object r)"
      and o: "map_of (param_rules m) k = Some r'"
      and t: "type r = Some ''integer''" and v: "default_value r = Some (Num n)"
    from map_of_for_in [OF d ps, of k] i o pm
    have "param_rule_step tn ts (Object r) = Inr (Some r')"
      by (cases "param_rule_step tn ts (Object r)") simp_all
    from param_rule_step_integer(2) [OF this t v]
    show "rule_invariant True r' = bounds_respected n r" .
  qed
  have d: "distinct (map fst (assigned_slurm_input_rules doc)) \<and>
          map_of (assigned_slurm_input_rules doc) j = Some (Object q) \<and>
          map_of (slurm_input_rules m) j = Some q' \<and>
          j \<in> set (slurm_integer_configs cat) \<and> j \<notin> set (slurm_integer_none_unit_config cat) \<and>
          default_value q = Some (Num i)
            \<longrightarrow> rule_invariant True q' = bounds_respected i q"
  proof (intro impI, elim conjE)
    assume d: "distinct (map fst (assigned_slurm_input_rules doc))"
      and i: "map_of (assigned_slurm_input_rules doc) j = Some (Object q)"
      and o: "map_of (slurm_input_rules m) j = Some q'"
      and t: "j \<in> set (slurm_integer_configs cat)" "j \<notin> set (slurm_integer_none_unit_config cat)"
      and v: "default_value q = Some (Num i)"
    from map_of_for_in [OF d ss, of j] i o sm
    have "slurm_rule_step cat tn ts j (Object q) = Inr (Some q')"
      by (cases "slurm_rule_step cat tn ts j (Object q)") simp_all
    from slurm_rule_step_integer(2) [OF this t v]
    show "rule_invariant True q' = bounds_respected i q" .
  qed
  from a b c d show ?thesis by blast
qed

text \<open>The theorem at \<open>rules_document\<close>: both of its rules survive, with bounds filled by
  the validator, and the validated manifest satisfies the invariant of the data model.\<close>

theorem surviving_rule_fields_witness:
  "(case normalizeManifest example_catalog no_number no_string rules_document ''repo'' of
      Inl e \<Rightarrow> False
    | Inr m \<Rightarrow>
        rules_invariant example_catalog m \<and>
        list_all (\<lambda>e. has_default (snd e) \<and> integer_fields_filled (snd e))
          (slurm_input_rules m @ param_rules m))"
proof -
  let ?w = "empty_rule\<lparr> default_value := Some (Num 5),
            rmax := Some (Num 10), rmin := Some (Num 0), step := Some (Num 1) \<rparr>"
  let ?t = "empty_rule\<lparr> type := Some ''integer'', default_value := Some (Num 3),
            rmax := Some (Num 6), rmin := Some (Num 0), step := Some (Num 1) \<rparr>"
  let ?m = "(fill_default_hpc (assign_defaults ''repo'' rules_document))
       \<lparr> slurm_input_rules := [(''walltime'', ?w)], param_rules := [(''threads'', ?t)] \<rparr>"
  have n: "normalizeManifest example_catalog no_number no_string rules_document ''repo'' = Inr ?m"
    by (rule rules_document_normalized)
  have c: "''walltime'' \<in> set (slurm_integer_configs example_catalog) \<and>
           ''walltime'' \<notin> set (slurm_integer_none_unit_config example_catalog)"
    by (simp add: example_catalog_def)
  have i: "distinct (map fst (assigned_param_rules rules_document)) \<and>
      map_of (assigned_param_rules rules_document) ''threads'' =
        Some (Object (empty_rule\<lparr> type := Some ''integer'', default_value := Some (Num 3) \<rparr>)) \<and>
      distinct (map fst (assigned_slurm_input_rules rules_document)) \<and>
      map_of (assigned_slurm_input_rules rules_document) ''walltime'' =
        Some (Object (empty_rule\<lparr> default_value := Some (Num 5) \<rparr>))"
    by (simp add: normalize_defs rules_document_def empty_document_def)
  have b: "bounds_respected 3 (empty_rule\<lparr> type := Some ''integer'', default_value := Some (Num 3) \<rparr>)
      \<and> bounds_respected 5 (empty_rule\<lparr> default_value := Some (Num 5) \<rparr>)"
    by (simp add: bounds_respected_def empty_rule_def truthy_opt_def)
  from surviving_rule_fields [OF n, of "''threads''"
      "empty_rule\<lparr> type := Some ''integer'', default_value := Some (Num 3) \<rparr>" ?t 3
      "''walltime''" "empty_rule\<lparr> default_value := Some (Num 5) \<rparr>" ?w 5] c i b
  have "has_default ?w \<and> integer_fields_filled ?w \<and> has_default ?t \<and> integer_fields_filled ?t \<and>
        rule_invariant True ?t \<and> rule_invariant True ?w"
    by (simp add: empty_rule_def)
  with c show ?thesis
    unfolding n
    by (simp add: rules_invariant_def slurm_rule_invariant_def param_rule_invariant_def
        empty_rule_def)
qed

text \<open>
  C2 as stated fails: the validator accepts \<open>bounds_document\<close>, and its parameter rule
  survives unchanged with \<open>min = 10\<close>, default \<open>5\<close>, \<open>max = 3\<close> and step \<open>-1\<close>.
\<close>

theorem rules_invariant_counterexample:
  "(case normalizeManifest example_catalog no_number no_string bounds_document ''repo'' of
      Inl e \<Rightarrow> False
    | Inr m \<Rightarrow> \<not> rules_invariant example_catalog m)"
  by (simp add: rules_invariant_def normalize_defs bounds_document_def example_defs step_defs
      param_rule_invariant_def rule_invariant_def js_le_def js_positive_def)

text \<open>
  C3 (as amended). For a document that the validator accepts: when \<^verbatim>\<open>default_hpc\<close> is unset
  (absent or empty) in the document and the output's \<^verbatim>\<open>supported_hpc\<close> is a non-empty list,
  the output's \<^verbatim>\<open>default_hpc\<close> is the first supported cluster, and so a member of the
  list. A \<^verbatim>\<open>default_hpc\<close> that the document gives is not compared with the list.
\<close>

theorem default_hpc_first_supported:
  assumes "normalizeManifest cat tn ts doc addr = Inr m"
    and "\<not> truthy_str (raw_default_hpc doc)"
    and "supported_hpc m = Some (h # hs)"
  shows "default_hpc m = Some h \<and> default_hpc_supported m"
  using assms(2,3) normalize_hpc [OF assms(1)]
  by (simp add: fill_default_hpc_def assign_defaults_def default_hpc_supported_def)

text \<open>The theorem at \<open>listed_hpc_document\<close>.\<close>

theorem default_hpc_first_supported_witness:
  "\<not> truthy_str (raw_default_hpc listed_hpc_document) \<and>
   (case normalizeManifest example_catalog no_number no_string listed_hpc_document ''repo'' of
      Inl e \<Rightarrow> False
    | Inr m \<Rightarrow> supported_hpc m = Some [''expanse'', ''anvil''] \<and>
               default_hpc m = Some ''expanse'' \<and> default_hpc_supported m)"
proof -
  let ?m = "(fill_default_hpc (assign_defaults ''repo'' listed_hpc_document))
       \<lparr> slurm_input_rules := [], param_rules := [] \<rparr>"
  have n: "normalizeManifest example_catalog no_number no_string listed_hpc_document ''repo'' = Inr ?m"
    by (simp add: normalize_defs listed_hpc_document_def empty_document_def)
  have a: "\<not> truthy_str (raw_default_hpc listed_hpc_document)"
    by (simp add: listed_hpc_document_def empty_document_def truthy_str_def)
  have b: "supported_hpc ?m = Some (''expanse'' # [''anvil''])"
    by (simp add: fill_default_hpc_def assign_defaults_def listed_hpc_document_def
        empty_document_def)
  from a b default_hpc_first_supported [OF n a b] show ?thesis
    unfolding n by simp
qed

text \<open>
  C3 as stated fails: \<open>unlisted_hpc_document\<close> gives the default \<^verbatim>\<open>anvil\<close> and supports
  \<^verbatim>\<open>expanse\<close> only, and both are kept.
\<close>

theorem default_hpc_member_counterexample:
  "(case normalizeManifest example_catalog no_number no_string unlisted_hpc_document ''repo'' of
      Inl e \<Rightarrow> False
    | Inr m \<Rightarrow> default_hpc m = Some ''anvil'' \<and> supported_hpc m = Some [''expanse''] \<and>
               \<not> default_hpc_supported m)"
  by (simp add: default_hpc_supported_def normalize_defs fill_default_hpc_def assign_defaults_def
      unlisted_hpc_document_def empty_document_def truthy_str_def)

text \<open>
  C6 (as amended). For a document that the validator accepts and whose rule mappings have
  distinct keys: a parameter rule of type \<^verbatim>\<open>integer\<close>, and a cluster-resource rule whose
  name is an integer name outside the unitless category, with a numeric default \<open>n\<close>, that
  survives validation has in the output: \<^verbatim>\<open>max\<close> twice the default if the input lacked
  \<^verbatim>\<open>max\<close> (exactly \<open>2 * n\<close> as long as that is within \<^verbatim>\<open>Number.MAX_VALUE\<close>, the infinity of
  the sign of \<open>n\<close> beyond it), \<open>min = 0\<close> if it lacked \<^verbatim>\<open>min\<close>, and \<open>step = 1\<close> if it lacked
  \<^verbatim>\<open>step\<close>.
\<close>

theorem integer_rule_defaults:
  assumes m: "normalizeManifest cat tn ts doc addr = Inr m"
  shows "(raw_param_rules doc = Some ps \<and> distinct (map fst ps) \<and>
          map_of ps k = Some (Object r) \<and>
          map_of (param_rules m) k = Some r' \<and>
          type r = Some ''integer'' \<and> default_value r = Some (Num n)
            \<longrightarrow> integer_rule_filled r r' n) \<and>
         (raw_slurm_input_rules doc = Some ss \<and> distinct (map fst ss) \<and>
          map_of ss j = Some (Object q) \<and>
          map_of (slurm_input_rules m) j = Some q' \<and>
          j \<in> set (slurm_integer_configs cat) \<and> j \<notin> set (slurm_integer_none_unit_config cat) \<and>
          default_value q = Some (Num i)
            \<longrightarrow> integer_rule_filled q q' i)"
proof -
  from m obtain ss' ps' where
    ss': "for_in (slurm_rule_step cat tn ts) (assigned_slurm_input_rules doc) = Inr ss'"
    and ps': "for_in (\<lambda>k. param_rule_step tn ts) (assigned_param_rules doc) = Inr ps'"
    and me: "m = (fill_default_hpc (assign_defaults addr doc))
                   \<lparr> slurm_input_rules := ss', param_rules := ps' \<rparr>"
    by (rule normalize_cases)
  from me have sm: "slurm_input_rules m = ss'" and pm: "param_rules m = ps'" by simp_all
  show ?thesis
  proof (intro conjI impI; elim conjE)
    assume a: "raw_param_rules doc = Some ps" "distinct (map fst ps)"
      "map_of ps k = Some (Object r)" "map_of (param_rules m) k = Some r'"
      "type r = Some ''integer''" "default_value r = Some (Num n)"
    from a(1) have ap: "assigned_param_rules doc = ps" by (simp add: assigned_param_rules_def)
    from map_of_for_in [OF _ ps', of k] a(2,3,4) ap pm
    have "param_rule_step tn ts (Object r) = Inr (Some r')"
      by (cases "param_rule_step tn ts (Object r)") simp_all
    from param_rule_step_integer(1) [OF this a(5,6)] show "integer_rule_filled r r' n" .
  next
    assume a: "raw_slurm_input_rules doc = Some ss" "distinct (map fst ss)"
      "map_of ss j = Some (Object q)" "map_of (slurm_input_rules m) j = Some q'"
      "j \<in> set (slurm_integer_configs cat)" "j \<notin> set (slurm_integer_none_unit_config cat)"
      "default_value q = Some (Num i)"
    from a(1) have ap: "assigned_slurm_input_rules doc = ss"
      by (simp add: assigned_slurm_input_rules_def)
    from map_of_for_in [OF _ ss', of j] a(2,3,4) ap sm
    have "slurm_rule_step cat tn ts j (Object q) = Inr (Some q')"
      by (cases "slurm_rule_step cat tn ts j (Object q)") simp_all
    from slurm_rule_step_integer(1) [OF this a(5,6,7)] show "integer_rule_filled q q' i" .
  qed
qed

text \<open>The theorem at \<open>rules_document\<close>: the parameter rule \<^verbatim>\<open>threads\<close> and the
  cluster-resource rule \<^verbatim>\<open>walltime\<close> of the validated manifest.\<close>

theorem integer_rule_defaults_witness:
  "(case normalizeManifest example_catalog no_number no_string rules_document ''repo'' of
      Inl e \<Rightarrow> False
    | Inr m \<Rightarrow>
        map_of (param_rules m) ''threads'' =
          Some (empty_rule\<lparr> type := Some ''integer'', default_value := Some (Num 3),
                  rmax := Some (Num 6), rmin := Some (Num 0), step := Some (Num 1) \<rparr>) \<and>
        map_of (slurm_input_rules m) ''walltime'' =
          Some (empty_rule\<lparr> default_value := Some (Num 5),
                  rmax := Some (Num 10), rmin := Some (Num 0), step := Some (Num 1) \<rparr>) \<and>
        integer_rule_filled
          (empty_rule\<lparr> type := Some ''integer'', default_value := Some (Num 3) \<rparr>)
          (the (map_of (param_rules m) ''threads'')) 3 \<and>
        integer_rule_filled
          (empty_rule\<lparr> default_value := Some (Num 5) \<rparr>)
          (the (map_of (slurm_input_rules m) ''walltime'')) 5)"
proof -
  let ?w = "empty_rule\<lparr> default_value := Some (Num 5),
            rmax := Some (Num 10), rmin := Some (Num 0), step := Some (Num 1) \<rparr>"
  let ?t = "empty_rule\<lparr> type := Some ''integer'', default_value := Some (Num 3),
            rmax := Some (Num 6), rmin := Some (Num 0), step := Some (Num 1) \<rparr>"
  let ?m = "(fill_default_hpc (assign_defaults ''repo'' rules_document))
       \<lparr> slurm_input_rules := [(''walltime'', ?w)], param_rules := [(''threads'', ?t)] \<rparr>"
  have n: "normalizeManifest example_catalog no_number no_string rules_document ''repo'' = Inr ?m"
    by (rule rules_document_normalized)
  have c: "''walltime'' \<in> set (slurm_integer_configs example_catalog) \<and>
           ''walltime'' \<notin> set (slurm_integer_none_unit_config example_catalog)"
    by (simp add: example_catalog_def)
  from integer_rule_defaults [OF n, of
      "[(''threads'', Object (empty_rule\<lparr> type := Some ''integer'', default_value := Some (Num 3) \<rparr>))]"
      "''threads''" "empty_rule\<lparr> type := Some ''integer'', default_value := Some (Num 3) \<rparr>"
      ?t 3
      "[(''walltime'', Object (empty_rule\<lparr> default_value := Some (Num 5) \<rparr>))]"
      "''walltime''" "empty_rule\<lparr> default_value := Some (Num 5) \<rparr>" ?w 5] c
  have "integer_rule_filled
          (empty_rule\<lparr> type := Some ''integer'', default_value := Some (Num 3) \<rparr>) ?t 3 \<and>
        integer_rule_filled (empty_rule\<lparr> default_value := Some (Num 5) \<rparr>) ?w 5"
    by (simp add: rules_document_def empty_document_def empty_rule_def)
  then show ?thesis
    unfolding n by simp
qed

text \<open>
  C6 as stated fails for the unitless category: the loop sets the unit of such a rule to
  \<^verbatim>\<open>"None"\<close> and continues with the next rule, so \<^verbatim>\<open>num_of_task\<close> with default \<open>4\<close> leaves
  validation without \<^verbatim>\<open>max\<close>, \<^verbatim>\<open>min\<close> and \<^verbatim>\<open>step\<close>.
\<close>

theorem unitless_rule_counterexample:
  "''num_of_task'' \<in> set (slurm_integer_configs example_catalog) \<and>
   (case normalizeManifest example_catalog no_number no_string unitless_document ''repo'' of
      Inl e \<Rightarrow> False
    | Inr m \<Rightarrow>
        slurm_input_rules m =
          [(''num_of_task'', empty_rule\<lparr> default_value := Some (Num 4), unit := Some ''None'' \<rparr>)] \<and>
        \<not> integer_rule_filled (empty_rule\<lparr> default_value := Some (Num 4) \<rparr>)
             (the (map_of (slurm_input_rules m) ''num_of_task'')) 4)"
  by (simp add: normalize_defs unitless_document_def example_defs step_defs
      integer_rule_filled_def)



section \<open>Claims about the refresh pipeline\<close>

text \<open>
  C1. The claim reads: with a pinned revision, the full-mirror check reports stale exactly
  when the remote has no revision or the pinned revision differs from the local revision,
  and fresh when the pinned revision already equals the local one. The code departs from
  it. With a pinned revision \<^verbatim>\<open>remoteSha\<close> is overwritten by \<^verbatim>\<open>git.sha\<close>, so the value
  returned is \<^verbatim>\<open>localSha == git.sha || git.sha !== localSha\<close>: whenever the check returns
  for a pinned repository, it reports stale, also when the local revision is the pinned
  one.
\<close>

theorem pinned_always_stale:
  assumes "pinned g = Some p" and "outOfDate env g s = (Inr b, s')"
  shows "b"
  using assms
  by (auto simp: outOfDate_def Let_def do_defs action_defs
      split: prod.splits sum.splits option.splits list.splits)

text \<open>The check at a mirror whose local revision, the remote head and the pinned revision
  are all \<^verbatim>\<open>abc\<close>: stale.\<close>

theorem pinned_always_stale_witness:
  "pinned demo_pinned = Some ''abc'' \<and>
   fst (outOfDate sim_env demo_pinned (synced_mirror (Some ''{}''))) = Inr True"
proof -
  have a: "pinned demo_pinned = Some ''abc''" by (simp add: sim_defs)
  obtain b s' where run: "outOfDate sim_env demo_pinned (synced_mirror (Some ''{}'')) = (Inr b, s')"
    using sim_pinned_outOfDate by blast
  from pinned_always_stale [OF a run] have b by simp
  with a run show ?thesis by simp
qed

text \<open>
  C4 (as amended). When the read of the manifest file fails after the refresh, the mirror
  is deleted and recreated once, with \<^verbatim>\<open>deleteAndPull\<close>, respectively
  \<^verbatim>\<open>deleteAndPullManifest\<close>. If the recreation completes, the read is retried exactly
  once and nothing else is called: the calls after the refresh are the failed read, the
  calls of one recreation and the second read. The outcome of the second read is the
  outcome of the call: an error of the second read is surfaced with no further retry and
  with the directory as recreated (not deleted again), a text goes on to validation. If
  the recreation itself throws, that error is surfaced: the read is not retried, and the
  calls after the refresh are the failed read and the part of the recreation up to the
  call that threw, the deletion first. The cache is as before the call in every case in
  which the call throws. The first half is \<^verbatim>\<open>GitUtil.getExecutableManifest\<close>, the second
  half \<^verbatim>\<open>ManifestUtil.getExecutableManifest\<close>, which has no cache.
\<close>

theorem manifest_read_recovery:
  "(refreshGit env g s = (Inr refreshed, s1) \<and>
    (refreshed \<or> cache s1 (git_id g) = None) \<and>
    do_readFile env (path_join (getLocalPath env (git_id g)) ''manifest.json'') s1 = (Inl e1, s2)
    \<longrightarrow>
    (deleteAndPull env g s2 = (Inr (), s3) \<and>
     do_readFile env (path_join (getLocalPath env (git_id g)) ''manifest.json'') s3 = (r, s4)
     \<longrightarrow>
     getExecutableManifest env g s = outcome_cached env g r s4 \<and>
     calls s4 = calls s1 @
       [ReadFile (path_join (getLocalPath env (git_id g)) ''manifest.json'')] @
       recreate_calls env g @
       [ReadFile (path_join (getLocalPath env (git_id g)) ''manifest.json'')] \<and>
     cache s4 = cache s) \<and>
    (deleteAndPull env g s2 = (Inl e, s3)
     \<longrightarrow>
     getExecutableManifest env g s = (Inl e, s3) \<and>
     (\<exists>n. 0 < n \<and> calls s3 = calls s1 @
        ReadFile (path_join (getLocalPath env (git_id g)) ''manifest.json'') #
        take n (recreate_calls env g)) \<and>
     cache s3 = cache s)) \<and>
   (refreshGitManifest env g t = (Inr (), t1) \<and>
    do_readFile env (path_join (getLocalManifestPath env (git_id g)) ''manifest.json'') t1 = (Inl d1, t2)
    \<longrightarrow>
    (deleteAndPullManifest env g t2 = (Inr (), t3) \<and>
     do_readFile env (path_join (getLocalManifestPath env (git_id g)) ''manifest.json'') t3 = (q, t4)
     \<longrightarrow>
     ManifestUtil_getExecutableManifest env g t = outcome_plain env g q t4 \<and>
     (\<exists>b. calls t4 = calls t1 @
        [ReadFile (path_join (getLocalManifestPath env (git_id g)) ''manifest.json'')] @
        recreate_manifest_calls env g b @
        [ReadFile (path_join (getLocalManifestPath env (git_id g)) ''manifest.json'')])) \<and>
    (deleteAndPullManifest env g t2 = (Inl d, t3)
     \<longrightarrow>
     ManifestUtil_getExecutableManifest env g t = (Inl d, t3) \<and>
     (\<exists>b n. 0 < n \<and> calls t3 = calls t1 @
        ReadFile (path_join (getLocalManifestPath env (git_id g)) ''manifest.json'') #
        take n (recreate_manifest_calls env g b))))"
  using git_read_recovered [of env g s refreshed s1 e1 s2 s3 r s4]
    git_recreate_failed [of env g s refreshed s1 e1 s2 e s3]
    manifest_read_recovered [of env g t t1 d1 t2 t3 q t4]
    manifest_recreate_failed [of env g t t1 d1 t2 d t3]
  by blast

text \<open>
  The theorem at four runs: a repository without a manifest file (the second read fails
  and its error is the result); a mirror that lost its manifest file, manifest-only kind
  (the retry succeeds); and both kinds with a remote that refuses clones and downloads
  (the recreation throws).
\<close>

theorem manifest_read_recovery_witness:
  "getExecutableManifest sim_env demo (synced_mirror None) =
     (Inl (External ''ENOENT''),
      (synced_mirror None)
        \<lparr> calls := [RemoveZip ''/data/demo'', ExistsSync ''/data/demo'',
                     Fetch ''/data/demo'' ''https://github.com/org/demo.git'', Log ''/data/demo'',
                     ReadFile ''/data/demo/manifest.json'',
                     Rimraf ''/data/demo'', Mkdir ''/data/demo'',
                     Clone ''/data/demo'' ''https://github.com/org/demo.git'',
                     ReadFile ''/data/demo/manifest.json''] \<rparr>) \<and>
   fst (ManifestUtil_getExecutableManifest sim_env demo (unreadable_mirror ''{}'')) =
     Inr (default_manifest ''https://github.com/org/demo.git'') \<and>
   fst (getExecutableManifest refusing_env demo (unreadable_mirror ''{}'')) =
     Inl (External ''clone refused'') \<and>
   fst (ManifestUtil_getExecutableManifest refusing_env demo (unreadable_mirror ''{}'')) =
     Inl (External ''download refused'')"
proof -
  let ?p = "path_join (getLocalPath sim_env (git_id demo)) ''manifest.json''"
  let ?q = "path_join (getLocalManifestPath sim_env (git_id demo)) ''manifest.json''"
  let ?refresh = "[RemoveZip ''/data/demo'', ExistsSync ''/data/demo'',
                     Fetch ''/data/demo'' ''https://github.com/org/demo.git'', Log ''/data/demo'']"
  let ?recreate = "[Rimraf ''/data/demo'', Mkdir ''/data/demo'',
                     Clone ''/data/demo'' ''https://github.com/org/demo.git'']"
  let ?download = "[Rimraf ''/data/manifests/demo'', Mkdir ''/data/manifests/demo'',
             Fetch ''/data/demo'' ''https://github.com/org/demo.git'',
             Exec (''cd /data/manifests/demo && wget -O manifest.json '' @
                   ''https://raw.githubusercontent.com/org/demo/main/manifest.json'')]"
  let ?S = "synced_mirror None"
  let ?s1 = "?S\<lparr> calls := ?refresh \<rparr>"
  let ?s2 = "?S\<lparr> calls := ?refresh @ [ReadFile ?p] \<rparr>"
  let ?s3 = "?S\<lparr> calls := ?refresh @ [ReadFile ?p] @ ?recreate \<rparr>"
  let ?s4 = "?S\<lparr> calls := ?refresh @ [ReadFile ?p] @ ?recreate @ [ReadFile ?p] \<rparr>"
  let ?U = "unreadable_mirror ''{}''"
  let ?t1 = "?U\<lparr> calls := [ExistsSync ''/data/manifests/demo''] \<rparr>"
  let ?t2 = "?U\<lparr> calls := [ExistsSync ''/data/manifests/demo'', ReadFile ?q] \<rparr>"
  let ?t3 = "?U\<lparr> world := (world ?U)\<lparr> local_head := None, local_manifest := Some ''{}'' \<rparr>,
                calls := [ExistsSync ''/data/manifests/demo'', ReadFile ?q] @ ?download \<rparr>"
  let ?t4 = "?U\<lparr> world := (world ?U)\<lparr> local_head := None, local_manifest := Some ''{}'' \<rparr>,
                calls := [ExistsSync ''/data/manifests/demo'', ReadFile ?q] @ ?download @
                  [ReadFile ?q] \<rparr>"
  let ?u1 = "?U\<lparr> calls := ?refresh \<rparr>"
  let ?u2 = "?U\<lparr> calls := ?refresh @ [ReadFile ?p] \<rparr>"
  let ?u3 = "?U\<lparr> world := (world ?U)\<lparr> local_head := None \<rparr>,
                calls := ?refresh @ [ReadFile ?p] @ ?recreate \<rparr>"
  let ?v3 = "?U\<lparr> world := (world ?U)\<lparr> local_head := None \<rparr>,
                calls := [ExistsSync ''/data/manifests/demo'', ReadFile ?q] @ ?download \<rparr>"
  have g1: "refreshGit sim_env demo ?S = (Inr False, ?s1)"
    by (simp add: sim_defs run_defs)
  have g2: "False \<or> cache ?s1 (git_id demo) = None" by (simp add: sim_defs)
  have g3: "do_readFile sim_env ?p ?s1 = (Inl (External ''ENOENT''), ?s2)"
    using sim_read_absent(1) [of ?s1 ?p] by (simp add: sim_defs)
  have g4: "deleteAndPull sim_env demo ?s2 = (Inr (), ?s3)"
    by (simp add: sim_defs run_defs)
  have g5: "do_readFile sim_env ?p ?s3 = (Inl (External ''ENOENT''), ?s4)"
    using sim_read_absent(1) [of ?s3 ?p] by (simp add: sim_defs)
  have m1: "refreshGitManifest sim_env demo ?U = (Inr (), ?t1)"
    by (simp add: sim_defs run_defs manifest_run_defs)
  have m2: "do_readFile sim_env ?q ?t1 = (Inl (External ''ENOENT''), ?t2)"
    using sim_read_absent(1) [of ?t1 ?q] by (simp add: sim_defs)
  have m3: "deleteAndPullManifest sim_env demo ?t2 = (Inr (), ?t3)"
    by (simp add: sim_defs run_defs manifest_run_defs)
  have m4: "do_readFile sim_env ?q ?t3 = (Inr ''{}'', ?t4)"
    by (simp add: sim_defs run_defs)
  have h1: "refreshGit refusing_env demo ?U = (Inr False, ?u1)"
    by (simp add: sim_defs run_defs)
  have h2: "False \<or> cache ?u1 (git_id demo) = None" by (simp add: sim_defs)
  have h3: "do_readFile refusing_env ?p ?u1 = (Inl (External ''ENOENT''), ?u2)"
    using sim_read_absent(2) [of ?u1 ?p] by (simp add: sim_defs)
  have h4: "deleteAndPull refusing_env demo ?u2 = (Inl (External ''clone refused''), ?u3)"
    by (simp add: sim_defs run_defs)
  have n1: "refreshGitManifest refusing_env demo ?U = (Inr (), ?t1)"
    by (simp add: sim_defs run_defs manifest_run_defs)
  have n2: "do_readFile refusing_env ?q ?t1 = (Inl (External ''ENOENT''), ?t2)"
    using sim_read_absent(2) [of ?t1 ?q] by (simp add: sim_defs)
  have n3: "deleteAndPullManifest refusing_env demo ?t2 = (Inl (External ''download refused''), ?v3)"
    by (simp add: sim_defs run_defs manifest_run_defs)
  have pe: "getLocalPath refusing_env (git_id demo) = getLocalPath sim_env (git_id demo)"
    "getLocalManifestPath refusing_env (git_id demo) = getLocalManifestPath sim_env (git_id demo)"
    by (simp_all add: sim_defs)
  note a = manifest_read_recovery [where env = sim_env and g = demo and s = ?S
      and refreshed = False and ?s1.0 = ?s1 and ?e1.0 = "External ''ENOENT''" and ?s2.0 = ?s2
      and ?s3.0 = ?s3 and r = "Inl (External ''ENOENT'')" and ?s4.0 = ?s4
      and t = ?U and ?t1.0 = ?t1 and ?d1.0 = "External ''ENOENT''" and ?t2.0 = ?t2
      and ?t3.0 = ?t3 and q = "Inr ''{}''" and ?t4.0 = ?t4]
  note b = manifest_read_recovery [where env = refusing_env and g = demo and s = ?U
      and refreshed = False and ?s1.0 = ?u1 and ?e1.0 = "External ''ENOENT''" and ?s2.0 = ?u2
      and ?s3.0 = ?u3 and e = "External ''clone refused''"
      and t = ?U and ?t1.0 = ?t1 and ?d1.0 = "External ''ENOENT''" and ?t2.0 = ?t2
      and ?t3.0 = ?v3 and d = "External ''download refused''", unfolded pe]
  from a g1 g2 g3 g4 g5
  have r1: "getExecutableManifest sim_env demo ?S = outcome_cached sim_env demo (Inl (External ''ENOENT'')) ?s4"
    by blast
  from a m1 m2 m3 m4
  have r2: "ManifestUtil_getExecutableManifest sim_env demo ?U = outcome_plain sim_env demo (Inr ''{}'') ?t4"
    by blast
  from b h1 h2 h3 h4
  have r3: "getExecutableManifest refusing_env demo ?U = (Inl (External ''clone refused''), ?u3)"
    by blast
  from b n1 n2 n3
  have r4: "ManifestUtil_getExecutableManifest refusing_env demo ?U =
      (Inl (External ''download refused''), ?v3)"
    by blast
  show ?thesis
    unfolding r1 r2 r3 r4
    by (simp add: outcome_cached_def outcome_plain_def processExecutableManifest_def sim_defs
        default_manifest_normalized)
qed

text \<open>
  C4 as stated fails where the recreation throws: with a remote that refuses the clone,
  the call ends with the error of the clone after a single read, and the directory is left
  deleted and recreated empty, without a working copy.
\<close>

theorem recreate_refused_counterexample:
  "fst (getExecutableManifest refusing_env demo (unreadable_mirror ''{}'')) =
     Inl (External ''clone refused'') \<and>
   filter is_read (calls (snd (getExecutableManifest refusing_env demo (unreadable_mirror ''{}'')))) =
     [ReadFile ''/data/demo/manifest.json''] \<and>
   local_head (world (snd (getExecutableManifest refusing_env demo (unreadable_mirror ''{}'')))) =
     None"
  by (simp add: git_clone_refused)

text \<open>
  C5. For a manifest-only mirror that exists, \<^verbatim>\<open>refreshGitManifest\<close> decides by time alone.
  With a timestamp \<open>d\<close> it finds the mirror stale, and downloads the manifest again,
  exactly when more than 120 seconds (120000 ms) have passed since \<open>d\<close>; otherwise it
  finds it fresh and does nothing more than test that the directory exists. Without a
  timestamp it finds the mirror stale: always for \<^verbatim>\<open>null\<close>, where the elapsed time stays at
  the initial \<open>1000000\<close> seconds, and for \<^verbatim>\<open>undefined\<close>, counted from the date \<open>-999999\<close>, at
  every clock that is not before 1970. Fresh and stale exclude each other.
\<close>

theorem manifest_only_staleness:
  assumes "existsSync env (getLocalManifestPath env (git_id g)) (world s)"
  shows "(updatedAt g = Date d \<longrightarrow>
            (if 120 * 1000 < now env (world s) - d
             then manifest_found_stale env g s else manifest_found_fresh env g s)) \<and>
         (updatedAt g = Null \<longrightarrow> manifest_found_stale env g s) \<and>
         (updatedAt g = Undefined \<and> 0 \<le> now env (world s) \<longrightarrow> manifest_found_stale env g s) \<and>
         \<not> (manifest_found_fresh env g s \<and> manifest_found_stale env g s)"
proof (intro conjI impI)
  assume u: "updatedAt g = Date d"
  show "if 120 * 1000 < now env (world s) - d
        then manifest_found_stale env g s else manifest_found_fresh env g s"
  proof (cases "120 * 1000 < now env (world s) - d")
    case True
    with u secsSinceUpdate_stale(1) [of "now env (world s)" d]
    have "120 < secsSinceUpdate (now env (world s)) (updatedAt g)" by simp
    from refreshGitManifest_stale [OF assms this] True show ?thesis by simp
  next
    case False
    with u secsSinceUpdate_stale(1) [of "now env (world s)" d]
    have "\<not> 120 < secsSinceUpdate (now env (world s)) (updatedAt g)" by simp
    from refreshGitManifest_fresh [OF assms this] False show ?thesis by simp
  qed
next
  assume u: "updatedAt g = Null"
  with secsSinceUpdate_stale(2) [of "now env (world s)"]
  have "120 < secsSinceUpdate (now env (world s)) (updatedAt g)" by simp
  from refreshGitManifest_stale [OF assms this] show "manifest_found_stale env g s" .
next
  assume u: "updatedAt g = Undefined \<and> 0 \<le> now env (world s)"
  with secsSinceUpdate_stale(3) [of "now env (world s)"]
  have "120 < secsSinceUpdate (now env (world s)) (updatedAt g)" by simp
  from refreshGitManifest_stale [OF assms this] show "manifest_found_stale env g s" .
next
  show "\<not> (manifest_found_fresh env g s \<and> manifest_found_stale env g s)"
    by (rule fresh_not_stale)
qed

text \<open>The theorem at a mirror last synchronised at time 0: fresh 30 seconds later,
  stale 150 seconds later, and stale at any of the two times without a timestamp.\<close>

theorem manifest_only_staleness_witness:
  "existsSync sim_env (getLocalManifestPath sim_env (git_id demo))
     (world (synced_mirror (Some ''{}''))) \<and>
   manifest_found_fresh sim_env demo (synced_mirror (Some ''{}'')) \<and>
   manifest_found_stale sim_env demo (at_time 150000 (synced_mirror (Some ''{}''))) \<and>
   manifest_found_stale sim_env (demo\<lparr> updatedAt := Null \<rparr>) (synced_mirror (Some ''{}'')) \<and>
   manifest_found_stale sim_env (demo\<lparr> updatedAt := Undefined \<rparr>) (synced_mirror (Some ''{}''))"
proof -
  let ?S = "synced_mirror (Some ''{}'')"
  have e1: "existsSync sim_env (getLocalManifestPath sim_env (git_id demo)) (world ?S)"
    by (simp add: sim_defs)
  have e2: "existsSync sim_env (getLocalManifestPath sim_env (git_id demo))
              (world (at_time 150000 ?S))"
    by (simp add: sim_defs at_time_def)
  have e3: "existsSync sim_env (getLocalManifestPath sim_env (git_id (demo\<lparr> updatedAt := Null \<rparr>)))
              (world ?S)"
    by (simp add: sim_defs)
  have e4: "existsSync sim_env
              (getLocalManifestPath sim_env (git_id (demo\<lparr> updatedAt := Undefined \<rparr>))) (world ?S)"
    by (simp add: sim_defs)
  have t: "updatedAt demo = Date 0" "now sim_env (world ?S) = 30000"
    "now sim_env (world (at_time 150000 ?S)) = 150000"
    by (simp_all add: sim_defs at_time_def)
  from manifest_only_staleness [OF e1, of 0] t have a: "manifest_found_fresh sim_env demo ?S"
    by simp
  from manifest_only_staleness [OF e2, of 0] t
  have b: "manifest_found_stale sim_env demo (at_time 150000 ?S)" by simp
  from manifest_only_staleness [OF e3, of 0]
  have c: "manifest_found_stale sim_env (demo\<lparr> updatedAt := Null \<rparr>) ?S" by simp
  from manifest_only_staleness [OF e4, of 0] t
  have d: "manifest_found_stale sim_env (demo\<lparr> updatedAt := Undefined \<rparr>) ?S" by simp
  from e1 a b c d show ?thesis by simp
qed

text \<open>
  C8. For a repository without a pinned revision: after a call that returned the manifest
  \<open>m\<close>, a second call at which the mirror exists and \<^verbatim>\<open>fetch\<close> reports as remote head the
  revision \<open>h\<close> that \<^verbatim>\<open>log\<close> reports as local revision (the head has not moved since the
  mirror was synchronised to it) returns \<open>m\<close> again; it calls \<^verbatim>\<open>removeZip\<close>,
  \<^verbatim>\<open>existsSync\<close>, \<^verbatim>\<open>fetch\<close> and \<^verbatim>\<open>log\<close> and nothing else, so it does not change the
  working copy, and it leaves the cache as it is. The cache is consulted only when the
  refresh reported that nothing was refreshed: the result of a call whose refresh returns
  \<^verbatim>\<open>true\<close> is the same for every content \<open>c\<close> of the cache.
\<close>

theorem unchanged_head_reuses_cache:
  assumes unpinned: "pinned g = None"
    and first: "getExecutableManifest env g s0 = (Inr m, s1)"
    and rz: "removeZip env (getLocalPath env (git_id g)) (world s1) = (Inr (), w1)"
    and ex: "existsSync env (getLocalPath env (git_id g)) w1"
    and fe: "fetch env (getLocalPath env (git_id g)) (address g) w1 = (Inr remote, w2)"
    and hd: "fetchHead remote = Some h"
    and lg: "git_log env (getLocalPath env (git_id g)) w2 = (Inr (h # older), w3)"
  shows "getExecutableManifest env g s1 =
           (Inr m, s1\<lparr> world := w3,
                         calls := calls s1 @
                           [RemoveZip (getLocalPath env (git_id g)),
                            ExistsSync (getLocalPath env (git_id g)),
                            Fetch (getLocalPath env (git_id g)) (address g),
                            Log (getLocalPath env (git_id g))] \<rparr>) \<and>
         filter mutates_mirror (calls_since s1 (snd (getExecutableManifest env g s1))) = [] \<and>
         (refreshGit env g s = (Inr True, t) \<longrightarrow>
            fst (getExecutableManifest env g (s\<lparr> cache := c \<rparr>)) =
            fst (getExecutableManifest env g s))"
proof -
  let ?lp = "getLocalPath env (git_id g)"
  let ?s2 = "s1\<lparr> world := w3, calls := calls s1 @
                [RemoveZip ?lp, ExistsSync ?lp, Fetch ?lp (address g), Log ?lp] \<rparr>"
  have c: "cache s1 (git_id g) = Some m" by (rule returned_manifest_cached [OF first])
  have od: "refreshGit env g s1 = (Inr False, ?s2)"
    using unpinned rz ex fe hd lg
    by (simp add: refreshGit_def outOfDate_def Let_def do_defs action_defs)
  have run: "getExecutableManifest env g s1 = (Inr m, ?s2)"
    using od c
    by (simp add: getExecutableManifest_def Let_def bind_def get_cache_def ret_def)
  have "filter mutates_mirror (calls_since s1 ?s2) = []"
    by (simp add: calls_since_def)
  with run refreshed_ignores_cache [of env g s t c] show ?thesis by simp
qed

text \<open>Two successive calls, the first at a missing mirror of a repository whose manifest
  is \<^verbatim>\<open>{}\<close>; the first call refreshes, and returns the same with another cache.\<close>

theorem unchanged_head_reuses_cache_witness:
  "pinned demo = None \<and>
   fst (getExecutableManifest sim_env demo
          (snd (getExecutableManifest sim_env demo (missing_mirror (Some ''{}''))))) =
   fst (getExecutableManifest sim_env demo (missing_mirror (Some ''{}''))) \<and>
   filter mutates_mirror
     (calls_since (snd (getExecutableManifest sim_env demo (missing_mirror (Some ''{}''))))
        (snd (getExecutableManifest sim_env demo
          (snd (getExecutableManifest sim_env demo (missing_mirror (Some ''{}''))))))) = [] \<and>
   fst (refreshGit sim_env demo (missing_mirror (Some ''{}''))) = Inr True \<and>
   fst (getExecutableManifest sim_env demo
          ((missing_mirror (Some ''{}''))
             \<lparr> cache := [''demo'' \<mapsto> assign_defaults [] empty_document] \<rparr>)) =
   fst (getExecutableManifest sim_env demo (missing_mirror (Some ''{}'')))"
proof -
  let ?lp = "getLocalPath sim_env (git_id demo)"
  let ?m = "default_manifest ''https://github.com/org/demo.git''"
  let ?s1 = "(synced_mirror (Some ''{}''))
        \<lparr> cache := [''demo'' \<mapsto> ?m],
          calls := [RemoveZip ''/data/demo'', ExistsSync ''/data/demo'', Rimraf ''/data/demo'',
                     Mkdir ''/data/demo'', Clone ''/data/demo'' ''https://github.com/org/demo.git'',
                     ReadFile ''/data/demo/manifest.json''] \<rparr>"
  let ?t = "(synced_mirror (Some ''{}''))
        \<lparr> calls := [RemoveZip ''/data/demo'', ExistsSync ''/data/demo'', Rimraf ''/data/demo'',
                     Mkdir ''/data/demo'', Clone ''/data/demo'' ''https://github.com/org/demo.git''] \<rparr>"
  have a: "pinned demo = None" by (simp add: sim_defs)
  have first: "getExecutableManifest sim_env demo (missing_mirror (Some ''{}'')) = (Inr ?m, ?s1)"
    by (rule sim_first_call)
  have rz: "removeZip sim_env ?lp (world ?s1) = (Inr (), world ?s1)" by (simp add: sim_defs)
  have ex: "existsSync sim_env ?lp (world ?s1)" by (simp add: sim_defs)
  have fe: "fetch sim_env ?lp (address demo) (world ?s1) =
      (Inr \<lparr> fetchHead = Some ''abc'', defaultBranch = Some ''refs/heads/main'' \<rparr>, world ?s1)"
    by (simp add: sim_defs)
  have hd: "fetchHead \<lparr> fetchHead = Some ''abc'', defaultBranch = Some ''refs/heads/main'' \<rparr>
      = Some ''abc''" by simp
  have lg: "git_log sim_env ?lp (world ?s1) = (Inr (''abc'' # []), world ?s1)"
    by (simp add: sim_defs)
  have rf: "refreshGit sim_env demo (missing_mirror (Some ''{}'')) = (Inr True, ?t)"
    by (rule sim_missing_refresh)
  note w = unchanged_head_reuses_cache [OF a first rz ex fe hd lg,
      where s = "missing_mirror (Some ''{}'')" and t = ?t
        and c = "[''demo'' \<mapsto> assign_defaults [] empty_document]"]
  from w have second: "fst (getExecutableManifest sim_env demo ?s1) = Inr ?m" by simp
  from w have quiet: "filter mutates_mirror
      (calls_since ?s1 (snd (getExecutableManifest sim_env demo ?s1))) = []" by blast
  from w rf have blind: "fst (getExecutableManifest sim_env demo
          ((missing_mirror (Some ''{}''))
             \<lparr> cache := [''demo'' \<mapsto> assign_defaults [] empty_document] \<rparr>)) =
      fst (getExecutableManifest sim_env demo (missing_mirror (Some ''{}'')))" by blast
  have refreshed: "fst (refreshGit sim_env demo (missing_mirror (Some ''{}''))) = Inr True"
    unfolding rf by simp
  from a second quiet refreshed blind show ?thesis
    unfolding first by simp
qed

text \<open>
  C9. The claim reads: a refresh that starts without a local mirror records the sync
  timestamp after the successful clone (and checkout of a pinned revision), before it
  returns. The code departs from it: \<^verbatim>\<open>refreshGit\<close> returns \<^verbatim>\<open>true\<close> right after
  \<^verbatim>\<open>deleteAndPull\<close>. The calls of such a refresh are \<^verbatim>\<open>removeZip\<close>, \<^verbatim>\<open>existsSync\<close>,
  \<^verbatim>\<open>rimraf\<close>, \<^verbatim>\<open>mkdir\<close>, \<^verbatim>\<open>clone\<close> and, with a pinned revision, \<^verbatim>\<open>checkout\<close>; the
  update of \<^verbatim>\<open>updatedAt\<close>, which the branch for a stale mirror makes, is not among them.
\<close>

theorem missing_refresh_calls:
  assumes "refreshGit env g s = (Inr r, s')"
    and "\<not> existsSync env (getLocalPath env (git_id g))
             (snd (removeZip env (getLocalPath env (git_id g)) (world s)))"
  shows "r \<and>
         calls s' = calls s @
           [RemoveZip (getLocalPath env (git_id g)), ExistsSync (getLocalPath env (git_id g)),
            Rimraf (getLocalPath env (git_id g)), Mkdir (getLocalPath env (git_id g)),
            Clone (getLocalPath env (git_id g)) (address g)] @
           (case pinned g of Some ref \<Rightarrow> [Checkout (getLocalPath env (git_id g)) ref]
            | None \<Rightarrow> [])"
proof -
  let ?lp = "getLocalPath env (git_id g)"
  obtain r1 w1 where rz: "removeZip env ?lp (world s) = (r1, w1)" by (cases "removeZip env ?lp (world s)")
  with assms(1) obtain u where r1: "r1 = Inr u"
    by (cases r1) (simp_all add: refreshGit_def Let_def do_defs action_defs)
  let ?s2 = "s\<lparr> world := w1, calls := calls s @ [RemoveZip ?lp, ExistsSync ?lp] \<rparr>"
  from assms rz r1 have dp: "bind (deleteAndPull env g) (\<lambda>_. ret True) ?s2 = (Inr r, s')"
    by (simp add: refreshGit_def Let_def do_defs action_defs)
  then obtain u' where d: "deleteAndPull env g ?s2 = (Inr u', s')" and r: "r"
    by (auto simp: action_defs split: prod.splits sum.splits)
  from deleteAndPull_calls [OF d] r show ?thesis by simp
qed

text \<open>The refresh at a missing mirror: no call \<open>UpdateUpdatedAt\<close>.\<close>

theorem missing_refresh_calls_witness:
  "fst (refreshGit sim_env demo (missing_mirror (Some ''{}''))) = Inr True \<and>
   calls (snd (refreshGit sim_env demo (missing_mirror (Some ''{}'')))) =
     [RemoveZip ''/data/demo'', ExistsSync ''/data/demo'', Rimraf ''/data/demo'',
      Mkdir ''/data/demo'', Clone ''/data/demo'' ''https://github.com/org/demo.git'']"
proof -
  obtain r s' where run: "refreshGit sim_env demo (missing_mirror (Some ''{}'')) = (Inr r, s')"
    using sim_missing_refresh by blast
  have ex: "\<not> existsSync sim_env (getLocalPath sim_env (git_id demo))
             (snd (removeZip sim_env (getLocalPath sim_env (git_id demo))
                (world (missing_mirror (Some ''{}'')))))"
    by (simp add: sim_defs)
  from missing_refresh_calls [OF run ex] run show ?thesis
    by (simp add: sim_defs)
qed

text \<open>
  C10. A call of \<^verbatim>\<open>GitUtil.getExecutableManifest\<close> that throws leaves the cache as it was
  before the call; in particular when the mirror was refreshed and
  \<^verbatim>\<open>processExecutableManifest\<close> throws on the text read, be it the \<^verbatim>\<open>SyntaxError\<close> of
  \<^verbatim>\<open>JSON.parse\<close> or a \<^verbatim>\<open>TypeError\<close> of the normalisation of the parsed document, since the
  cache is written after \<^verbatim>\<open>processExecutableManifest\<close> has returned. A manifest cached
  earlier for the repository stays in the cache.
\<close>

theorem failed_call_keeps_cache:
  assumes "getExecutableManifest env g s = (Inl e, s')"
  shows "cache s' = cache s"
  using assms
proof (cases rule: getExecutableManifest_cases)
  case (refresh_failed e')
  then show ?thesis using cache_blind_keeps [OF cache_blind_refreshGit] by blast
next
  case (cached s1 m)
  then show ?thesis by simp
next
  case (read refreshed s1)
  have c1: "cache s1 = cache s"
    by (rule cache_blind_keeps [OF cache_blind_refreshGit read(1)])
  from read(3) show ?thesis
    unfolding read_or_recreate_def [symmetric]
  proof (cases rule: store_result_cases)
    case (failed e')
    with c1 show ?thesis by simp
  next
    case (stored m)
    then show ?thesis by simp
  qed
qed

text \<open>
  Two calls that clone the mirror, with a manifest cached before: one reads a manifest
  that is no JSON text and throws \<^verbatim>\<open>SyntaxError\<close>, the other reads a manifest with a
  \<^verbatim>\<open>null\<close> rule, which parses, and throws \<^verbatim>\<open>TypeError\<close> in the normalisation. The cached
  manifest is still there after each.
\<close>

theorem failed_call_keeps_cache_witness:
  "fst (getExecutableManifest sim_env demo
          ((missing_mirror (Some ''not json''))
             \<lparr> cache := [''demo'' \<mapsto> default_manifest ''previous''] \<rparr>)) = Inl SyntaxError \<and>
   cache (snd (getExecutableManifest sim_env demo
          ((missing_mirror (Some ''not json''))
             \<lparr> cache := [''demo'' \<mapsto> default_manifest ''previous''] \<rparr>))) ''demo'' =
     Some (default_manifest ''previous'') \<and>
   fst (getExecutableManifest sim_env demo
          ((missing_mirror (Some ''{\"param_rules\": {\"threads\": null}}''))
             \<lparr> cache := [''demo'' \<mapsto> default_manifest ''previous''] \<rparr>)) = Inl TypeError \<and>
   cache (snd (getExecutableManifest sim_env demo
          ((missing_mirror (Some ''{\"param_rules\": {\"threads\": null}}''))
             \<lparr> cache := [''demo'' \<mapsto> default_manifest ''previous''] \<rparr>))) ''demo'' =
     Some (default_manifest ''previous'')"
proof -
  let ?c = "[''demo'' \<mapsto> default_manifest ''previous'']"
  obtain s' where run: "getExecutableManifest sim_env demo
          ((missing_mirror (Some ''not json''))\<lparr> cache := ?c \<rparr>) = (Inl SyntaxError, s')"
    using sim_parse_failure by blast
  obtain t' where run2: "getExecutableManifest sim_env demo
          ((missing_mirror (Some ''{\"param_rules\": {\"threads\": null}}''))\<lparr> cache := ?c \<rparr>)
       = (Inl TypeError, t')"
    using sim_normalize_failure by blast
  from failed_call_keeps_cache [OF run] failed_call_keeps_cache [OF run2] run run2
  show ?thesis by simp
qed

end
